theory Spec2Isabelle
  imports Main
begin

section \<open>Values, exceptions and tables\<close>

text \<open>
  A shallow embedding of \<^verbatim>\<open>appointments.py\<close>: the job table and the appointment dump are
  CSV files on Google Drive, read and written through pandas; the appointments come from the
  ServiceTitan REST API through \<^verbatim>\<open>requests\<close>.

  A JSON value is what \<^verbatim>\<open>r.json()\<close> returns and what a table cell holds. Numbers are
  integers here (the identifiers are), \<open>JNull\<close> is a missing cell (pandas' NaN) as well as
  JSON's null. An object is a Python dict: an association list in insertion order.
\<close>

datatype json =
    JNull
  | JBool bool
  | JNum int
  | JStr string
  | JArr "json list"
  | JObj "(string \<times> json) list"

type_synonym dict = "(string \<times> json) list"

text \<open>The Python exceptions the program can meet, with what they carry.\<close>

datatype exn =
    RequestException
  | HTTPError nat
  | JSONDecodeError
  | AttributeError
  | TypeError
  | KeyError string
  | ValueError
  | ZeroDivisionError

text \<open>
  A pandas DataFrame: the column labels and the rows, each row a dict from column label to
  cell. A label a row does not hold is a missing cell.
\<close>

record dataframe =
  columns :: "string list"
  rows :: "dict list"

definition cell :: "string \<Rightarrow> dict \<Rightarrow> json" where
  "cell c r = (case map_of r c of None \<Rightarrow> JNull | Some v \<Rightarrow> v)"

text \<open>The values of one column, top to bottom.\<close>

definition column :: "dataframe \<Rightarrow> string \<Rightarrow> json list" where
  "column df c = map (cell c) (rows df)"

text \<open>\<^verbatim>\<open>df[c]\<close>: KeyError when the table has no such column.\<close>

definition df_getitem :: "dataframe \<Rightarrow> string \<Rightarrow> exn + json list" where
  "df_getitem df c = (if c \<in> set (columns df) then Inr (column df c) else Inl (KeyError c))"

text \<open>\<^verbatim>\<open>df.empty\<close>: one of the two axes has length zero.\<close>

definition df_empty :: "dataframe \<Rightarrow> bool" where
  "df_empty df \<longleftrightarrow> columns df = [] \<or> rows df = []"

text \<open>\<^verbatim>\<open>Series.dropna()\<close>.\<close>

definition dropna :: "json list \<Rightarrow> json list" where
  "dropna vs = filter (\<lambda>v. v \<noteq> JNull) vs"

text \<open>
  \<^verbatim>\<open>Series.astype(int)\<close>: a numeric cell gives its integer; a missing cell or a cell that is
  not a number raises ValueError.
\<close>

fun astype_int :: "json list \<Rightarrow> exn + int list" where
  "astype_int [] = Inr []"
| "astype_int (JNum i # vs) = (case astype_int vs of Inl e \<Rightarrow> Inl e | Inr is \<Rightarrow> Inr (i # is))"
| "astype_int (v # vs) = Inl ValueError"

text \<open>
  \<^verbatim>\<open>Series.unique()\<close>: one pass that keeps a value the first time it is seen.
  (\<^const>\<open>remdups\<close> of the library keeps the last occurrence instead.)
\<close>

fun unique_from :: "'a list \<Rightarrow> 'a list \<Rightarrow> 'a list" where
  "unique_from seen [] = []"
| "unique_from seen (x # xs) =
     (if x \<in> set seen then unique_from seen xs else x # unique_from (x # seen) xs)"

definition unique :: "'a list \<Rightarrow> 'a list" where
  "unique xs = unique_from [] xs"

text \<open>
  \<^verbatim>\<open>pd.DataFrame(batch)\<close> of a list of dicts: one row per dict, the columns are the keys in
  the order they are first met. \<^verbatim>\<open>pd.concat([prior, df], ignore_index=True)\<close>: the rows of
  \<open>prior\<close>, then those of \<open>df\<close>, over the union of the columns.
\<close>

definition DataFrame :: "dict list \<Rightarrow> dataframe" where
  "DataFrame batch = \<lparr>columns = unique (concat (map (map fst) batch)), rows = batch\<rparr>"

definition pd_concat :: "dataframe \<Rightarrow> dataframe \<Rightarrow> dataframe" where
  "pd_concat prior df = \<lparr>columns = unique (columns prior @ columns df), rows = rows prior @ rows df\<rparr>"

text \<open>
  \<^verbatim>\<open>str.lower()\<close> on the ASCII letters, which is all that a comparison with
  \<^verbatim>\<open>firstappointmentid\<close> and \<^verbatim>\<open>lastappointmentid\<close> can depend on.
\<close>

definition lower_char :: "char \<Rightarrow> char" where
  "lower_char c =
     (case map_of (zip ''ABCDEFGHIJKLMNOPQRSTUVWXYZ'' ''abcdefghijklmnopqrstuvwxyz'') c of
        None \<Rightarrow> c | Some l \<Rightarrow> l)"

definition lower :: "string \<Rightarrow> string" where
  "lower s = map lower_char s"

section \<open>Google Drive\<close>

text \<open>
  The folder holds at most one file of each of the two names. A file is kept as the table
  that \<^verbatim>\<open>read_drive_csv\<close> parses from it (a file of zero bytes is the table with no column
  and no row); the CSV text itself and the transport are not modelled, so a Drive call never
  raises here. The rows of a file are kept as they were appended, in their order: what
  writing a cell as CSV text and parsing it again does to the value of the cell is not
  modelled either.
\<close>

record drive =
  job_file :: "dataframe option"
  dump_file :: "dataframe option"

text \<open>The file written at the first run: the bytes \<^verbatim>\<open>id\n\<close>, a header and no row.\<close>

definition header_only :: dataframe where
  "header_only = \<lparr>columns = [''id''], rows = []\<rparr>"

text \<open>
  \<^verbatim>\<open>append_drive_csv\<close>: read the file as it is now, put the new rows after it and write
  the whole table back. The first argument is the current content, the result the new one.
\<close>

definition append_drive_csv :: "dataframe \<Rightarrow> dataframe \<Rightarrow> dataframe" where
  "append_drive_csv prior df = pd_concat prior df"

section \<open>ServiceTitan\<close>

text \<open>
  What a request comes back with: the call itself raised (timeout, no connection), or a
  response with its status code and the result of \<^verbatim>\<open>r.json()\<close> (\<open>None\<close> when the body
  is not JSON). The world answers the n-th token request of the run and each GET of an
  appointment under a bearer token.
\<close>

datatype reply = Failed | Reply nat "json option"

record world =
  post_token :: "nat \<Rightarrow> reply"
  get_appointment :: "int \<Rightarrow> json \<Rightarrow> reply"

text \<open>\<^verbatim>\<open>Response.raise_for_status()\<close> raises HTTPError for a 4xx or a 5xx status.\<close>

definition raise_for_status :: "nat \<Rightarrow> bool" where
  "raise_for_status code \<longleftrightarrow> 400 \<le> code \<and> code < 600"

definition st_token :: "world \<Rightarrow> nat \<Rightarrow> exn + json" where
  "st_token w n =
     (case post_token w n of
        Failed \<Rightarrow> Inl RequestException
      | Reply code body \<Rightarrow>
          if raise_for_status code then Inl (HTTPError code)
          else (case body of
                  None \<Rightarrow> Inl JSONDecodeError
                | Some (JObj kvs) \<Rightarrow>
                    (case map_of kvs ''access_token'' of
                       None \<Rightarrow> Inl (KeyError ''access_token'')
                     | Some t \<Rightarrow> Inr t)
                | Some _ \<Rightarrow> Inl TypeError))"

text \<open>\<^verbatim>\<open>dict.setdefault(k, v)\<close>, for its effect on the dict.\<close>

definition setdefault :: "dict \<Rightarrow> string \<Rightarrow> json \<Rightarrow> dict" where
  "setdefault d k v = (if k \<in> fst ` set d then d else d @ [(k, v)])"

definition not_found :: "int \<Rightarrow> dict" where
  "not_found aid = [(''id'', JNum aid), (''status'', JStr ''NOT_FOUND'')]"

definition fetch_appt :: "world \<Rightarrow> int \<Rightarrow> json \<Rightarrow> exn + dict" where
  "fetch_appt w aid tok =
     (case get_appointment w aid tok of
        Failed \<Rightarrow> Inl RequestException
      | Reply code body \<Rightarrow>
          if code = 404 then Inr (not_found aid)
          else if raise_for_status code then Inl (HTTPError code)
          else (case body of
                  None \<Rightarrow> Inl JSONDecodeError
                | Some (JObj data) \<Rightarrow> Inr (setdefault data ''id'' (JNum aid))
                | Some _ \<Rightarrow> Inl AttributeError))"

section \<open>The workflow\<close>

text \<open>
  What a run does to the outside, in the order it does it: the file it creates, the batches
  it appends, the token requests and the GETs it issues, the warnings it logs and the lines
  it prints.
\<close>

datatype message = Created_dump | Up_to_date | To_fetch nat | Downloaded nat | Finished nat

datatype event =
    Create_file dataframe
  | Append "dict list"
  | Post_token
  | Get int json
  | Warning int exn
  | Print message

text \<open>
  How a run ends: \<^verbatim>\<open>main\<close> returns, \<^verbatim>\<open>sys.exit\<close> is called with a message, or an
  exception is not caught. The interpreter exits with status 0 in the first case and 1 in
  the other two (the message, or the traceback, goes to stderr).
\<close>

datatype exit_message = Job_file_not_found | Lacks_id_columns

datatype outcome = Returned | SystemExit exit_message | Uncaught exn

definition exit_code :: "outcome \<Rightarrow> int" where
  "exit_code out = (case out of Returned \<Rightarrow> 0 | SystemExit m \<Rightarrow> 1 | Uncaught e \<Rightarrow> 1)"

definition BATCH_SIZE :: nat where
  "BATCH_SIZE = 50"

subsection \<open>What is left to fetch\<close>

definition done_ids :: "dataframe \<Rightarrow> exn + int set" where
  "done_ids dump_df =
     (if df_empty dump_df then Inr {}
      else (case df_getitem dump_df ''id'' of
              Inl e \<Rightarrow> Inl e
            | Inr col \<Rightarrow> (case astype_int col of Inl e \<Rightarrow> Inl e | Inr is \<Rightarrow> Inr (set is))))"

definition id_cols :: "dataframe \<Rightarrow> string list" where
  "id_cols job_df =
     filter (\<lambda>c. lower c \<in> {''firstappointmentid'', ''lastappointmentid''}) (columns job_df)"

text \<open>\<^verbatim>\<open>pd.concat([job_df[c] for c in id_cols])\<close>: the columns one under the other.\<close>

definition stacked :: "dataframe \<Rightarrow> string list \<Rightarrow> json list" where
  "stacked job_df cols = concat (map (column job_df) cols)"

text \<open>
  The value of \<^verbatim>\<open>todo_ids\<close> when the run reaches the fetch, or the way the run ended
  before: the identifiers of the dump are read first, then the reference columns are looked
  for, then they are stacked, cleaned and deduplicated.
\<close>

definition todo_ids :: "dataframe \<Rightarrow> dataframe \<Rightarrow> outcome + int list" where
  "todo_ids job_df dump_df =
     (case done_ids dump_df of
        Inl e \<Rightarrow> Inl (Uncaught e)
      | Inr done \<Rightarrow>
          if id_cols job_df = [] then Inl (SystemExit Lacks_id_columns)
          else (case astype_int (dropna (stacked job_df (id_cols job_df))) of
                  Inl e \<Rightarrow> Inl (Uncaught e)
                | Inr ids \<Rightarrow> Inr (filter (\<lambda>i. i \<notin> done) (unique ids))))"

subsection \<open>The fetch loop\<close>

text \<open>
  The variables of the loop, the content of the dump file, and the number of token requests
  made so far (which one the world answers next).
\<close>

record loop_state =
  token :: json
  batch :: "dict list"
  count :: nat
  dump :: dataframe
  posts :: nat

text \<open>
  One iteration, for the identifier \<open>aid\<close>: the events, the exception that leaves the loop
  if there is one, and the state. A fetch that raises is logged and skipped. The remainder
  \<^verbatim>\<open>count % BATCH_SIZE\<close> is computed outside the \<^verbatim>\<open>try\<close>, as is the flush.
\<close>

definition loop_body :: "nat \<Rightarrow> world \<Rightarrow> int \<Rightarrow> loop_state \<Rightarrow> event list \<times> exn option \<times> loop_state" where
  "loop_body B w aid s =
     (case fetch_appt w aid (token s) of
        Inl e \<Rightarrow> ([Get aid (token s), Warning aid e], None, s)
      | Inr r \<Rightarrow>
          if B = 0 then
            ([Get aid (token s)], Some ZeroDivisionError,
             s\<lparr>batch := batch s @ [r], count := count s + 1\<rparr>)
          else if (count s + 1) mod B = 0 then
            (case st_token w (posts s) of
               Inl e \<Rightarrow>
                 ([Get aid (token s), Append (batch s @ [r]), Post_token], Some e,
                  s\<lparr>batch := [], count := count s + 1,
                    dump := append_drive_csv (dump s) (DataFrame (batch s @ [r])),
                    posts := posts s + 1\<rparr>)
             | Inr t \<Rightarrow>
                 ([Get aid (token s), Append (batch s @ [r]), Post_token,
                   Print (Downloaded (count s + 1))], None,
                  s\<lparr>token := t, batch := [], count := count s + 1,
                    dump := append_drive_csv (dump s) (DataFrame (batch s @ [r])),
                    posts := posts s + 1\<rparr>))
          else ([Get aid (token s)], None, s\<lparr>batch := batch s @ [r], count := count s + 1\<rparr>))"

fun for_loop :: "nat \<Rightarrow> world \<Rightarrow> int list \<Rightarrow> loop_state \<Rightarrow> event list \<times> exn option \<times> loop_state" where
  "for_loop B w [] s = ([], None, s)"
| "for_loop B w (aid # rest) s =
     (case loop_body B w aid s of
        (ev, Some e, s') \<Rightarrow> (ev, Some e, s')
      | (ev, None, s') \<Rightarrow>
          (case for_loop B w rest s' of (ev', x, s'') \<Rightarrow> (ev @ ev', x, s'')))"

subsection \<open>main\<close>

record run =
  ended :: outcome
  store :: drive
  trace :: "event list"

text \<open>The dump table the run works on, and what creating it did: lines 112 to 118.\<close>

definition bootstrap :: "drive \<Rightarrow> dataframe \<times> event list" where
  "bootstrap d =
     (case dump_file d of
        None \<Rightarrow> (header_only, [Create_file header_only, Print Created_dump])
      | Some t \<Rightarrow> (t, []))"

definition start :: "json \<Rightarrow> dataframe \<Rightarrow> loop_state" where
  "start tok dump_df = \<lparr>token = tok, batch = [], count = 0, dump = dump_df, posts = 1\<rparr>"

text \<open>\<^verbatim>\<open>main\<close>, with the batch size as a parameter.\<close>

definition main_with :: "nat \<Rightarrow> world \<Rightarrow> drive \<Rightarrow> run" where
  "main_with B w d =
     (case job_file d of
        None \<Rightarrow> \<lparr>ended = SystemExit Job_file_not_found, store = d, trace = []\<rparr>
      | Some job_df \<Rightarrow>
          (case bootstrap d of
             (dump_df, ev0) \<Rightarrow>
               (case todo_ids job_df dump_df of
                  Inl out \<Rightarrow>
                    \<lparr>ended = out, store = d\<lparr>dump_file := Some dump_df\<rparr>, trace = ev0\<rparr>
                | Inr todo \<Rightarrow>
                    if todo = [] then
                      \<lparr>ended = Returned, store = d\<lparr>dump_file := Some dump_df\<rparr>,
                       trace = ev0 @ [Print Up_to_date]\<rparr>
                    else
                      (case st_token w 0 of
                         Inl e \<Rightarrow>
                           \<lparr>ended = Uncaught e, store = d\<lparr>dump_file := Some dump_df\<rparr>,
                            trace = ev0 @ [Print (To_fetch (length todo)), Post_token]\<rparr>
                       | Inr tok \<Rightarrow>
                           (case for_loop B w todo (start tok dump_df) of
                              (ev, Some e, s) \<Rightarrow>
                                \<lparr>ended = Uncaught e, store = d\<lparr>dump_file := Some (dump s)\<rparr>,
                                 trace = ev0 @ [Print (To_fetch (length todo)), Post_token] @ ev\<rparr>
                            | (ev, None, s) \<Rightarrow>
                                \<lparr>ended = Returned,
                                 store = d\<lparr>dump_file :=
                                   Some (append_drive_csv (dump s) (DataFrame (batch s)))\<rparr>,
                                 trace = ev0 @ [Print (To_fetch (length todo)), Post_token] @ ev
                                   @ [Append (batch s), Print (Finished (count s))]\<rparr>)))))"

definition main :: "world \<Rightarrow> drive \<Rightarrow> run" where
  "main w d = main_with BATCH_SIZE w d"

subsection \<open>Reading a trace\<close>

text \<open>The GETs issued (identifier and token), the batches appended, the warnings logged.\<close>

fun gets :: "event list \<Rightarrow> (int \<times> json) list" where
  "gets [] = []"
| "gets (Get aid tok # ev) = (aid, tok) # gets ev"
| "gets (e # ev) = gets ev"

fun appends :: "event list \<Rightarrow> dict list list" where
  "appends [] = []"
| "appends (Append b # ev) = b # appends ev"
| "appends (e # ev) = appends ev"

fun warnings :: "event list \<Rightarrow> (int \<times> exn) list" where
  "warnings [] = []"
| "warnings (Warning aid e # ev) = (aid, e) # warnings ev"
| "warnings (e # ev) = warnings ev"

fun token_requests :: "event list \<Rightarrow> nat" where
  "token_requests [] = 0"
| "token_requests (Post_token # ev) = Suc (token_requests ev)"
| "token_requests (e # ev) = token_requests ev"

text \<open>Of a list of GETs, the records of those that succeed and the errors of those that raise.\<close>

definition fetched :: "world \<Rightarrow> (int \<times> json) list \<Rightarrow> dict list" where
  "fetched w gs =
     concat (map (\<lambda>(aid, tok). case fetch_appt w aid tok of Inl e \<Rightarrow> [] | Inr r \<Rightarrow> [r]) gs)"

definition failed :: "world \<Rightarrow> (int \<times> json) list \<Rightarrow> (int \<times> exn) list" where
  "failed w gs =
     concat (map (\<lambda>(aid, tok). case fetch_appt w aid tok of Inl e \<Rightarrow> [(aid, e)] | Inr r \<Rightarrow> []) gs)"

section \<open>Where the numeric conversions are exact\<close>

text \<open>
  pandas keeps a column of integers as int64 and a column of integers with a blank cell as
  float64; stacking an int64 column on a float64 one turns its values into float64, and
  \<^verbatim>\<open>astype(int)\<close> brings them to int64. \<^const>\<open>stacked\<close> and \<^const>\<open>astype_int\<close> keep an
  integer as it is, whatever its size. The two agree on plain columns: each cell is blank or
  an integer whose magnitude is below 2 to the power 53, which int64 and float64 both hold
  exactly. What the code does with other cells (an integer that float64 rounds or int64
  cannot hold, a text, a truth value) is not modelled, and a statement that depends on the
  values of the cells is made for plain columns.
\<close>

fun plain_cell :: "json \<Rightarrow> bool" where
  "plain_cell JNull = True"
| "plain_cell (JNum i) = (\<bar>i\<bar> < 2 ^ 53)"
| "plain_cell v = False"

definition plain_ids :: "dataframe \<Rightarrow> string list \<Rightarrow> bool" where
  "plain_ids df cols = list_all (\<lambda>c. list_all plain_cell (column df c)) cols"

section \<open>Notions of the specification\<close>

text \<open>
  The batches the specification describes: the records cut into runs of the batch size, in
  order, the last run being what is left (fewer than the batch size, none when the size
  divides the number of records).
\<close>

function batches :: "nat \<Rightarrow> 'a list \<Rightarrow> 'a list list" where
  "batches B xs = (if B = 0 \<or> length xs < B then [xs] else take B xs # batches B (drop B xs))"
  by pat_completeness auto
termination
  by (relation "measure (\<lambda>(B, xs). length xs)") auto

declare batches.simps [simp del]

text \<open>
  The first-seen order of a sequence, duplicates removed: its values at the positions where
  a value stands that no earlier position holds, in the order of the positions.
\<close>

definition first_seen :: "'a list \<Rightarrow> 'a list" where
  "first_seen xs = map (\<lambda>i. xs ! i) (filter (\<lambda>i. xs ! i \<notin> set (take i xs)) [0..<length xs])"

text \<open>
  The scan the specification's order-preservation property describes: row by row, and in
  each row the reference columns from left to right.
\<close>

definition row_scan :: "dataframe \<Rightarrow> string list \<Rightarrow> json list" where
  "row_scan job_df cols = concat (map (\<lambda>r. map (\<lambda>c. cell c r) cols) (rows job_df))"

section \<open>Example inputs\<close>

text \<open>
  A job table with the two reference columns, a world in which every request succeeds (the
  n-th token is the number n, an appointment comes back with its identifier and a field), a
  world in which nothing answers, and the dump a run leaves for the job table.
\<close>

definition job_example :: dataframe where
  "job_example =
     \<lparr>columns = [''JobId'', ''FirstAppointmentID'', ''LastAppointmentID''],
      rows = [[(''JobId'', JNum 7), (''FirstAppointmentID'', JNum 1), (''LastAppointmentID'', JNum 2)],
              [(''JobId'', JNum 8), (''FirstAppointmentID'', JNum 2), (''LastAppointmentID'', JNum 3)]]\<rparr>"

definition world_ok :: world where
  "world_ok =
     \<lparr>post_token = (\<lambda>n. Reply 200 (Some (JObj [(''access_token'', JNum (int n))]))),
      get_appointment = (\<lambda>aid tok. Reply 200 (Some (JObj [(''id'', JNum aid), (''active'', JBool True)])))\<rparr>"

definition world_down :: world where
  "world_down = \<lparr>post_token = (\<lambda>n. Failed), get_appointment = (\<lambda>aid tok. Failed)\<rparr>"

definition dump_example :: dataframe where
  "dump_example =
     \<lparr>columns = [''id'', ''active''],
      rows = [[(''id'', JNum 1), (''active'', JBool True)],
              [(''id'', JNum 2), (''active'', JBool True)],
              [(''id'', JNum 3), (''active'', JBool True)]]\<rparr>"

text \<open>A world whose every GET comes back with one status and one body.\<close>

definition world_replying :: "nat \<Rightarrow> json option \<Rightarrow> world" where
  "world_replying code body =
     \<lparr>post_token = (\<lambda>n. Reply 200 (Some (JObj [(''access_token'', JNum (int n))]))),
      get_appointment = (\<lambda>aid tok. Reply code body)\<rparr>"


text \<open>
  A world in which the appointments of a given list answer 500 and the others succeed, and
  a job table with one reference column.
\<close>

definition world_failing :: "int list \<Rightarrow> world" where
  "world_failing bad =
     \<lparr>post_token = (\<lambda>n. Reply 200 (Some (JObj [(''access_token'', JNum (int n))]))),
      get_appointment = (\<lambda>aid tok.
        if aid \<in> set bad then Reply 500 None
        else Reply 200 (Some (JObj [(''id'', JNum aid), (''active'', JBool True)])))\<rparr>"


text \<open>A job table whose two reference columns share no identifier.\<close>

definition job_crossed :: dataframe where
  "job_crossed =
     \<lparr>columns = [''FirstAppointmentID'', ''LastAppointmentID''],
      rows = [[(''FirstAppointmentID'', JNum 1), (''LastAppointmentID'', JNum 3)],
              [(''FirstAppointmentID'', JNum 2), (''LastAppointmentID'', JNum 4)]]\<rparr>"

text \<open>
  A world that checks the bearer token: a GET under a token that the token endpoint issued
  succeeds, a GET under anything else answers 401. A dump with a row and no
  \<^verbatim>\<open>id\<close> column.
\<close>

definition world_auth :: world where
  "world_auth =
     \<lparr>post_token = (\<lambda>n. Reply 200 (Some (JObj [(''access_token'', JNum (int n))]))),
      get_appointment = (\<lambda>aid tok.
        case tok of
          JNum n \<Rightarrow> Reply 200 (Some (JObj [(''id'', JNum aid), (''active'', JBool True)]))
        | _ \<Rightarrow> Reply 401 None)\<rparr>"


section \<open>Lemmas on traces and on the loop\<close>

lemma gets_append [simp]: "gets (a @ b) = gets a @ gets b"
  by (induction a rule: gets.induct) auto

lemma appends_append [simp]: "appends (a @ b) = appends a @ appends b"
  by (induction a rule: appends.induct) auto

lemma warnings_append [simp]: "warnings (a @ b) = warnings a @ warnings b"
  by (induction a rule: warnings.induct) auto

lemma token_requests_append [simp]:
  "token_requests (a @ b) = token_requests a + token_requests b"
  by (induction a rule: token_requests.induct) auto

lemma fetched_Nil [simp]: "fetched w [] = []"
  by (simp add: fetched_def)

lemma fetched_Cons [simp]:
  "fetched w ((aid, tok) # gs) =
     (case fetch_appt w aid tok of Inl e \<Rightarrow> [] | Inr r \<Rightarrow> [r]) @ fetched w gs"
  by (simp add: fetched_def)

lemma fetched_append [simp]: "fetched w (a @ b) = fetched w a @ fetched w b"
  by (simp add: fetched_def)

lemma failed_Nil [simp]: "failed w [] = []"
  by (simp add: failed_def)

lemma failed_Cons [simp]:
  "failed w ((aid, tok) # gs) =
     (case fetch_appt w aid tok of Inl e \<Rightarrow> [(aid, e)] | Inr r \<Rightarrow> []) @ failed w gs"
  by (simp add: failed_def)

lemma failed_append [simp]: "failed w (a @ b) = failed w a @ failed w b"
  by (simp add: failed_def)

text \<open>The three ways an iteration goes on to the next identifier.\<close>

lemma loop_body_None:
  assumes "loop_body B w aid s = (ev, None, s')"
  obtains (raises) e where "fetch_appt w aid (token s) = Inl e"
      "ev = [Get aid (token s), Warning aid e]" "s' = s"
  | (keeps) r where "fetch_appt w aid (token s) = Inr r" "0 < B" "(count s + 1) mod B \<noteq> 0"
      "ev = [Get aid (token s)]" "s' = s\<lparr>batch := batch s @ [r], count := count s + 1\<rparr>"
  | (flushes) r t where "fetch_appt w aid (token s) = Inr r" "0 < B" "(count s + 1) mod B = 0"
      "st_token w (posts s) = Inr t"
      "ev = [Get aid (token s), Append (batch s @ [r]), Post_token, Print (Downloaded (count s + 1))]"
      "s' = s\<lparr>token := t, batch := [], count := count s + 1,
        dump := append_drive_csv (dump s) (DataFrame (batch s @ [r])), posts := posts s + 1\<rparr>"
proof (cases "fetch_appt w aid (token s)")
  case (Inl e)
  with assms have "ev = [Get aid (token s), Warning aid e] \<and> s' = s"
    by (auto simp: loop_body_def)
  with Inl show ?thesis by (intro raises) auto
next
  case (Inr r)
  show ?thesis
  proof (cases "B = 0")
    case True
    with assms Inr show ?thesis by (auto simp: loop_body_def)
  next
    case False
    then have pos: "0 < B" by simp
    show ?thesis
    proof (cases "(count s + 1) mod B = 0")
      case nz: False
      with assms Inr False
      have "ev = [Get aid (token s)] \<and> s' = s\<lparr>batch := batch s @ [r], count := count s + 1\<rparr>"
        by (auto simp: loop_body_def)
      with Inr pos nz show ?thesis by (intro keeps) auto
    next
      case z: True
      show ?thesis
      proof (cases "st_token w (posts s)")
        case (Inl e)
        with assms Inr False z show ?thesis by (auto simp: loop_body_def)
      next
        case t: (Inr t)
        with assms Inr False z
        have "ev = [Get aid (token s), Append (batch s @ [r]), Post_token,
                    Print (Downloaded (count s + 1))] \<and>
              s' = s\<lparr>token := t, batch := [], count := count s + 1,
                dump := append_drive_csv (dump s) (DataFrame (batch s @ [r])),
                posts := posts s + 1\<rparr>"
          by (auto simp: loop_body_def)
        with Inr pos z t show ?thesis by (intro flushes) auto
      qed
    qed
  qed
qed

lemma for_loop_Cons_None:
  assumes "for_loop B w (aid # rest) s = (ev, None, s')"
  obtains ev1 s1 ev2 where "loop_body B w aid s = (ev1, None, s1)"
    "for_loop B w rest s1 = (ev2, None, s')" "ev = ev1 @ ev2"
  using assms by (auto split: prod.splits option.splits)

lemma batches_short: "length xs < B \<Longrightarrow> batches B xs = [xs]"
  by (simp add: batches.simps)

lemma batches_full: "0 < B \<Longrightarrow> length xs = B \<Longrightarrow> batches B (xs @ ys) = xs # batches B ys"
  by (subst batches.simps) simp

lemma for_loop_batches:
  "for_loop B w ids s = (ev, None, s') \<Longrightarrow> 0 < B \<Longrightarrow> length (batch s) = count s mod B \<Longrightarrow>
   appends ev @ [batch s'] = batches B (batch s @ fetched w (gets ev)) \<and>
   length (batch s') = count s' mod B"
proof (induction ids arbitrary: s ev)
  case Nil
  then show ?case by (simp add: batches_short)
next
  case (Cons aid rest)
  from Cons.prems(1) obtain ev1 s1 ev2 where
    body: "loop_body B w aid s = (ev1, None, s1)" and
    rest: "for_loop B w rest s1 = (ev2, None, s')" and ev: "ev = ev1 @ ev2"
    by (rule for_loop_Cons_None)
  from body show ?case
  proof (cases rule: loop_body_None)
    case (raises e)
    with Cons.IH [OF rest Cons.prems(2)] Cons.prems(3) ev show ?thesis by simp
  next
    case (keeps r)
    have "length (batch s1) = count s1 mod B"
      using keeps Cons.prems(3) by (simp add: mod_Suc split: if_splits)
    with Cons.IH [OF rest Cons.prems(2)] keeps ev show ?thesis by simp
  next
    case (flushes r t)
    have len: "length (batch s @ [r]) = B"
      using flushes Cons.prems(2,3) by (simp add: mod_Suc split: if_splits)
    have "length (batch s1) = count s1 mod B"
      using flushes by simp
    with Cons.IH [OF rest Cons.prems(2)] flushes ev batches_full [OF Cons.prems(2) len]
    show ?thesis by simp
  qed
qed

lemma for_loop_facts:
  "for_loop B w ids s = (ev, None, s') \<Longrightarrow>
   map fst (gets ev) = ids \<and>
   warnings ev = failed w (gets ev) \<and>
   count s' = count s + length (fetched w (gets ev)) \<and>
   rows (dump s') = rows (dump s) @ concat (appends ev) \<and>
   posts s' = posts s + length (appends ev) \<and>
   token_requests ev = length (appends ev)"
proof (induction ids arbitrary: s ev)
  case Nil
  then show ?case by simp
next
  case (Cons aid rest)
  from Cons.prems obtain ev1 s1 ev2 where
    body: "loop_body B w aid s = (ev1, None, s1)" and
    rest: "for_loop B w rest s1 = (ev2, None, s')" and ev: "ev = ev1 @ ev2"
    by (rule for_loop_Cons_None)
  from body show ?case
  proof (cases rule: loop_body_None)
    case (raises e)
    with Cons.IH [OF rest] ev show ?thesis by simp
  next
    case (keeps r)
    with Cons.IH [OF rest] ev show ?thesis by simp
  next
    case (flushes r t)
    with Cons.IH [OF rest] ev show ?thesis
      by (simp add: append_drive_csv_def pd_concat_def DataFrame_def)
  qed
qed

lemma for_loop_token:
  "for_loop B w ids s = (ev, None, s') \<Longrightarrow>
   (if appends ev = [] then token s' = token s
    else st_token w (posts s' - 1) = Inr (token s'))"
proof (induction ids arbitrary: s ev)
  case Nil
  then show ?case by simp
next
  case (Cons aid rest)
  from Cons.prems obtain ev1 s1 ev2 where
    body: "loop_body B w aid s = (ev1, None, s1)" and
    rest: "for_loop B w rest s1 = (ev2, None, s')" and ev: "ev = ev1 @ ev2"
    by (rule for_loop_Cons_None)
  have p: "posts s' = posts s1 + length (appends ev2)"
    using for_loop_facts [OF rest] by simp
  from body show ?case
  proof (cases rule: loop_body_None)
    case (raises e)
    with Cons.IH [OF rest] ev show ?thesis by (cases "appends ev2 = []") simp_all
  next
    case (keeps r)
    with Cons.IH [OF rest] ev show ?thesis by (cases "appends ev2 = []") simp_all
  next
    case (flushes r t)
    with Cons.IH [OF rest] ev p show ?thesis
      by (cases "appends ev2 = []") simp_all
  qed
qed

lemma for_loop_completes:
  "0 < B \<Longrightarrow> \<forall>n. \<exists>t. st_token w n = Inr t \<Longrightarrow> \<exists>ev s'. for_loop B w ids s = (ev, None, s')"
proof (induction ids arbitrary: s)
  case Nil
  then show ?case by simp
next
  case (Cons aid rest)
  from Cons.prems(2) obtain t where t: "st_token w (posts s) = Inr t" by blast
  have "\<exists>ev1 s1. loop_body B w aid s = (ev1, None, s1)"
    using Cons.prems(1) t by (cases "fetch_appt w aid (token s)") (simp_all add: loop_body_def)
  then obtain ev1 s1 where body: "loop_body B w aid s = (ev1, None, s1)" by blast
  from Cons.IH [OF Cons.prems, of s1] obtain ev2 s' where
    "for_loop B w rest s1 = (ev2, None, s')" by blast
  with body show ?case by simp
qed

lemma concat_batches: "concat (batches B xs) = xs"
proof (induction B xs rule: batches.induct)
  case (1 B xs)
  show ?case
  proof (cases "B = 0 \<or> length xs < B")
    case True
    then show ?thesis by (subst batches.simps) simp
  next
    case False
    with 1 show ?thesis by (subst batches.simps) simp
  qed
qed

lemma length_batches:
  "0 < B \<Longrightarrow> map length (batches B xs) = replicate (length xs div B) B @ [length xs mod B]"
proof (induction B xs rule: batches.induct)
  case (1 B xs)
  show ?case
  proof (cases "length xs < B")
    case True
    then show ?thesis by (subst batches.simps) simp
  next
    case False
    then have le: "B \<le> length xs" by simp
    have d: "length xs div B = Suc ((length xs - B) div B)"
      using le "1.prems" by (simp add: le_div_geq)
    have m: "length xs mod B = (length xs - B) mod B"
      using le by (simp add: le_mod_geq)
    from False "1.prems" have "map length (batches B (drop B xs)) =
        replicate (length (drop B xs) div B) B @ [length (drop B xs) mod B]"
      by (intro "1.IH") auto
    with False "1.prems" d m le show ?thesis by (subst batches.simps) simp
  qed
qed

lemma batches_not_Nil [simp]: "batches B xs \<noteq> []"
  by (subst batches.simps) simp

lemma last_batches: "0 < B \<Longrightarrow> last (batches B xs) = drop (length xs div B * B) xs"
proof (induction B xs rule: batches.induct)
  case (1 B xs)
  show ?case
  proof (cases "length xs < B")
    case True
    then show ?thesis by (subst batches.simps) simp
  next
    case False
    then have le: "B \<le> length xs" by simp
    have d: "length xs div B = Suc ((length xs - B) div B)"
      using le "1.prems" by (simp add: le_div_geq)
    from False "1.prems" have "last (batches B (drop B xs)) =
        drop (length (drop B xs) div B * B) (drop B xs)"
      by (intro "1.IH") auto
    with False "1.prems" d show ?thesis
      by (subst batches.simps) (simp add: add.commute)
  qed
qed

lemma length_fetched_failed: "length (fetched w gs) + length (failed w gs) = length gs"
  by (induction gs) (auto split: sum.splits)

lemma fetched_all:
  "\<forall>aid tok. \<exists>r. fetch_appt w aid tok = Inr r \<Longrightarrow> length (fetched w gs) = length gs"
proof (induction gs)
  case Nil
  then show ?case by simp
next
  case (Cons g gs)
  obtain aid tok where g: "g = (aid, tok)" by (cases g)
  from Cons.prems obtain r where "fetch_appt w aid tok = Inr r" by blast
  with Cons g show ?case by simp
qed

lemma ceil_div:
  fixes n B :: nat
  assumes "0 < B"
  shows "(n + B - 1) div B = n div B + (if n mod B = 0 then 0 else 1)"
proof -
  define q r where "q = n div B" and "r = n mod B"
  have n: "n = B * q + r" and r: "r < B"
    using assms by (simp_all add: q_def r_def)
  show ?thesis
  proof (cases "r = 0")
    case True
    have "(n + B - 1) div B = q"
    proof (rule div_nat_eqI)
      show "B * q \<le> n + B - 1" using n True assms by simp
      show "n + B - 1 < B * Suc q" using n True assms by simp
    qed
    with True show ?thesis by (simp add: q_def r_def)
  next
    case False
    have "(n + B - 1) div B = Suc q"
    proof (rule div_nat_eqI)
      show "B * Suc q \<le> n + B - 1" using n False by simp
      show "n + B - 1 < B * Suc (Suc q)" using n r by simp
    qed
    with False show ?thesis by (simp add: q_def r_def)
  qed
qed

text \<open>When an iteration appends.\<close>

lemma loop_body_appends:
  assumes "0 < B"
  shows "appends (fst (loop_body B w aid s)) \<noteq> [] \<longleftrightarrow>
    (\<exists>r. fetch_appt w aid (token s) = Inr r) \<and> (count s + 1) mod B = 0"
proof (cases "fetch_appt w aid (token s)")
  case (Inl e)
  then show ?thesis by (simp add: loop_body_def)
next
  case (Inr r)
  with assms show ?thesis
    by (cases "st_token w (posts s)") (simp_all add: loop_body_def)
qed

text \<open>One iteration, however it ends.\<close>

lemma loop_body_any:
  assumes "loop_body B w aid s = (ev, x, s')"
  shows "gets ev = [(aid, token s)] \<and>
    batch s @ fetched w [(aid, token s)] = concat (appends ev) @ batch s'"
proof (cases "fetch_appt w aid (token s)")
  case (Inl e)
  with assms show ?thesis by (auto simp: loop_body_def)
next
  case (Inr r)
  show ?thesis
  proof (cases "B = 0")
    case True
    with assms Inr show ?thesis by (auto simp: loop_body_def)
  next
    case False
    show ?thesis
    proof (cases "(count s + 1) mod B = 0")
      case nz: False
      with assms Inr False show ?thesis by (auto simp: loop_body_def)
    next
      case z: True
      with assms Inr False show ?thesis
        by (cases "st_token w (posts s)") (auto simp: loop_body_def)
    qed
  qed
qed

lemma for_loop_any:
  "for_loop B w ids s = (ev, x, s') \<Longrightarrow>
   map fst (gets ev) = take (length (gets ev)) ids \<and>
   batch s @ fetched w (gets ev) = concat (appends ev) @ batch s'"
proof (induction ids arbitrary: s ev x s')
  case Nil
  then show ?case by simp
next
  case (Cons aid rest)
  obtain ev1 x1 s1 where body: "loop_body B w aid s = (ev1, x1, s1)"
    by (cases "loop_body B w aid s") auto
  note b = loop_body_any [OF body]
  show ?case
  proof (cases x1)
    case (Some e)
    with Cons.prems body have "ev = ev1" "s' = s1" by simp_all
    with b show ?thesis by simp
  next
    case None
    obtain ev2 x2 s2 where rest: "for_loop B w rest s1 = (ev2, x2, s2)"
      by (cases "for_loop B w rest s1") auto
    with Cons.prems body None have e: "ev = ev1 @ ev2" "s' = s2" by simp_all
    from b have g1: "gets ev1 = [(aid, token s)]"
      and c1: "batch s @ fetched w (gets ev1) = concat (appends ev1) @ batch s1"
      by simp_all
    from Cons.IH [OF rest] have g2: "map fst (gets ev2) = take (length (gets ev2)) rest"
      and c2: "batch s1 @ fetched w (gets ev2) = concat (appends ev2) @ batch s2"
      by simp_all
    have "batch s @ fetched w (gets ev) = (batch s @ fetched w (gets ev1)) @ fetched w (gets ev2)"
      by (simp add: e)
    also have "\<dots> = concat (appends ev1) @ (batch s1 @ fetched w (gets ev2))"
      by (simp only: c1 append_assoc)
    also have "\<dots> = concat (appends ev) @ batch s'"
      by (simp add: c2 e)
    finally have c: "batch s @ fetched w (gets ev) = concat (appends ev) @ batch s'" .
    from g1 g2 have "map fst (gets ev) = take (length (gets ev)) (aid # rest)"
      by (simp add: e)
    with c show ?thesis by simp
  qed
qed

section \<open>Lemmas on the todo list\<close>

lemma astype_int_Inr: "astype_int vs = Inr is \<Longrightarrow> vs = map JNum is"
proof (induction vs arbitrary: "is" rule: astype_int.induct)
  case 1
  then show ?case by simp
next
  case (2 i vs)
  then show ?case by (auto split: sum.splits)
qed simp_all

lemma set_unique_from: "set (unique_from seen xs) = set xs - set seen"
  by (induction xs arbitrary: seen) auto

lemma distinct_unique_from: "distinct (unique_from seen xs)"
  by (induction xs arbitrary: seen) (auto simp: set_unique_from)

lemma set_unique [simp]: "set (unique xs) = set xs"
  by (simp add: unique_def set_unique_from)

lemma distinct_unique [simp]: "distinct (unique xs)"
  by (simp add: unique_def distinct_unique_from)

text \<open>\<^const>\<open>unique\<close> gives the first-seen order.\<close>

lemma unique_from_first_seen:
  "unique_from seen xs =
     map (\<lambda>i. xs ! i) (filter (\<lambda>i. xs ! i \<notin> set seen \<union> set (take i xs)) [0..<length xs])"
proof (induction xs arbitrary: seen)
  case Nil
  then show ?case by simp
next
  case (Cons x xs)
  have u: "[0..<length (x # xs)] = 0 # map Suc [0..<length xs]"
    by (metis length_Cons upt_conv_Cons zero_less_Suc map_Suc_upt)
  show ?case
  proof (cases "x \<in> set seen")
    case True
    then have s: "y \<notin> set seen \<Longrightarrow> y \<noteq> x" for y by auto
    from True show ?thesis
      unfolding u by (simp add: Cons.IH [of seen] filter_map o_def s cong: conj_cong)
  next
    case False
    then show ?thesis
      unfolding u by (simp add: Cons.IH [of "x # seen"] filter_map o_def conj_ac)
  qed
qed

lemma unique_first_seen: "unique xs = first_seen xs"
  by (simp add: unique_def first_seen_def unique_from_first_seen)

text \<open>What a computed todo list is made of.\<close>

lemma todo_ids_Inr:
  assumes "todo_ids job_df dump_df = Inr todo"
  obtains dn ids where "done_ids dump_df = Inr dn" "id_cols job_df \<noteq> []"
    "astype_int (dropna (stacked job_df (id_cols job_df))) = Inr ids"
    "todo = filter (\<lambda>i. i \<notin> dn) (unique ids)"
proof (cases "done_ids dump_df")
  case (Inl e)
  with assms show ?thesis by (simp add: todo_ids_def)
next
  case d: (Inr dn)
  show ?thesis
  proof (cases "astype_int (dropna (stacked job_df (id_cols job_df)))")
    case (Inl e)
    with assms d show ?thesis by (simp add: todo_ids_def split: if_splits)
  next
    case (Inr ids)
    with assms d that show ?thesis by (auto simp: todo_ids_def split: if_splits)
  qed
qed

lemma done_ids_holds:
  assumes "done_ids dump_df = Inr done" "df_getitem dump_df ''id'' = Inr col" "JNum i \<in> set col"
  shows "i \<in> done"
proof -
  from assms(2) have c: "''id'' \<in> set (columns dump_df)" "col = column dump_df ''id''"
    by (auto simp: df_getitem_def split: if_splits)
  with assms(3) have "\<not> df_empty dump_df"
    by (auto simp: df_empty_def column_def)
  with assms(1,2) obtain "is" where "astype_int col = Inr is" "done = set is"
    by (auto simp: done_ids_def split: sum.splits)
  with astype_int_Inr [of col "is"] assms(3) show ?thesis by auto
qed


section \<open>Lemmas on main\<close>

lemma bootstrap_quiet [simp]:
  "gets (snd (bootstrap d)) = []" "appends (snd (bootstrap d)) = []"
  "warnings (snd (bootstrap d)) = []" "token_requests (snd (bootstrap d)) = 0"
  by (simp_all add: bootstrap_def split: option.splits)

lemma main_with_up_to_date:
  assumes "job_file d = Some job_df" and "todo_ids job_df (fst (bootstrap d)) = Inr []"
  shows "main_with B w d =
    \<lparr>ended = Returned, store = d\<lparr>dump_file := Some (fst (bootstrap d))\<rparr>,
     trace = snd (bootstrap d) @ [Print Up_to_date]\<rparr>"
  using assms by (simp add: main_with_def split_beta)

lemma main_with_stops:
  assumes "job_file d = Some job_df" and "todo_ids job_df (fst (bootstrap d)) = Inl out"
  shows "main_with B w d =
    \<lparr>ended = out, store = d\<lparr>dump_file := Some (fst (bootstrap d))\<rparr>, trace = snd (bootstrap d)\<rparr>"
  using assms by (simp add: main_with_def split_beta)

lemma main_with_fetches:
  assumes "job_file d = Some job_df" and "todo_ids job_df (fst (bootstrap d)) = Inr todo"
    and "todo \<noteq> []" and "st_token w 0 = Inr tok"
    and "for_loop B w todo (start tok (fst (bootstrap d))) = (ev, None, s)"
  shows "main_with B w d =
    \<lparr>ended = Returned,
     store = d\<lparr>dump_file := Some (append_drive_csv (dump s) (DataFrame (batch s)))\<rparr>,
     trace = snd (bootstrap d) @ [Print (To_fetch (length todo)), Post_token] @ ev
       @ [Append (batch s), Print (Finished (count s))]\<rparr>"
  using assms by (simp add: main_with_def split_beta)

lemma main_with_Returned:
  assumes "job_file d = Some job_df" and "todo_ids job_df (fst (bootstrap d)) = Inr todo"
    and "todo \<noteq> []" and "ended (main_with B w d) = Returned"
  obtains tok ev s where "st_token w 0 = Inr tok"
    and "for_loop B w todo (start tok (fst (bootstrap d))) = (ev, None, s)"
proof (cases "st_token w 0")
  case (Inl e)
  with assms show ?thesis by (simp add: main_with_def split_beta)
next
  case (Inr tok)
  obtain ev x s where l: "for_loop B w todo (start tok (fst (bootstrap d))) = (ev, x, s)"
    by (cases "for_loop B w todo (start tok (fst (bootstrap d)))") auto
  show ?thesis
  proof (cases x)
    case None
    with Inr l that show ?thesis by blast
  next
    case (Some e)
    with assms Inr l show ?thesis by (simp add: main_with_def split_beta)
  qed
qed

lemmas eval_table =
  todo_ids_def done_ids_def df_empty_def df_getitem_def header_only_def id_cols_def
  lower_def lower_char_def stacked_def column_def cell_def dropna_def unique_def
  bootstrap_def

text \<open>A run that fetches and returns, read from its trace.\<close>

lemma main_with_summary:
  assumes j: "job_file d = Some job_df" and t: "todo_ids job_df (fst (bootstrap d)) = Inr todo"
    and n: "todo \<noteq> []" and B: "0 < B" and r: "ended (main_with B w d) = Returned"
  shows "map fst (gets (trace (main_with B w d))) = todo"
    and "warnings (trace (main_with B w d)) = failed w (gets (trace (main_with B w d)))"
    and "appends (trace (main_with B w d)) = batches B (fetched w (gets (trace (main_with B w d))))"
    and "last (trace (main_with B w d)) =
           Print (Finished (length (fetched w (gets (trace (main_with B w d))))))"
    and "token_requests (trace (main_with B w d)) = length (appends (trace (main_with B w d)))"
    and "\<exists>t. dump_file (store (main_with B w d)) = Some t \<and>
           rows t = rows (fst (bootstrap d)) @ fetched w (gets (trace (main_with B w d)))"
proof -
  from j t n r obtain tok ev s where tok: "st_token w 0 = Inr tok"
    and loop: "for_loop B w todo (start tok (fst (bootstrap d))) = (ev, None, s)"
    by (rule main_with_Returned)
  note R = main_with_fetches [OF j t n tok loop]
  note F = for_loop_facts [OF loop]
  have "length (batch (start tok (fst (bootstrap d)))) = count (start tok (fst (bootstrap d))) mod B"
    by (simp add: start_def)
  from for_loop_batches [OF loop B this]
  have bt: "appends ev @ [batch s] = batches B (fetched w (gets ev))"
    by (simp add: start_def)
  have g: "gets (trace (main_with B w d)) = gets ev" by (simp add: R)
  show "map fst (gets (trace (main_with B w d))) = todo" using F g by simp
  show "warnings (trace (main_with B w d)) = failed w (gets (trace (main_with B w d)))"
    using F g by (simp add: R)
  show "appends (trace (main_with B w d)) = batches B (fetched w (gets (trace (main_with B w d))))"
    using bt g by (simp add: R)
  show "last (trace (main_with B w d)) =
      Print (Finished (length (fetched w (gets (trace (main_with B w d))))))"
    using F g by (simp add: R start_def)
  show "token_requests (trace (main_with B w d)) = length (appends (trace (main_with B w d)))"
    using F by (simp add: R)
  have "rows (append_drive_csv (dump s) (DataFrame (batch s))) =
      rows (fst (bootstrap d)) @ concat (appends ev @ [batch s])"
    using F by (simp add: append_drive_csv_def pd_concat_def DataFrame_def start_def)
  also have "\<dots> = rows (fst (bootstrap d)) @ fetched w (gets ev)"
    by (simp only: bt concat_batches)
  finally show "\<exists>t. dump_file (store (main_with B w d)) = Some t \<and>
      rows t = rows (fst (bootstrap d)) @ fetched w (gets (trace (main_with B w d)))"
    using g by (simp add: R)
qed

lemma main_with_completes:
  assumes j: "job_file d = Some job_df" and t: "todo_ids job_df (fst (bootstrap d)) = Inr todo"
    and B: "0 < B" and a: "\<forall>n. \<exists>t. st_token w n = Inr t"
  shows "ended (main_with B w d) = Returned"
proof (cases "todo = []")
  case True
  with main_with_up_to_date [OF j, of B w] t show ?thesis by simp
next
  case False
  from a obtain tok where tok: "st_token w 0 = Inr tok" by blast
  from for_loop_completes [OF B a] obtain ev s where
    "for_loop B w todo (start tok (fst (bootstrap d))) = (ev, None, s)" by blast
  from main_with_fetches [OF j t False tok this] show ?thesis by simp
qed

text \<open>The example worlds.\<close>

lemma st_token_world_ok [simp]: "st_token world_ok n = Inr (JNum (int n))"
  by (simp add: st_token_def world_ok_def raise_for_status_def)

lemma st_token_world_failing [simp]: "st_token (world_failing bad) n = Inr (JNum (int n))"
  by (simp add: st_token_def world_failing_def raise_for_status_def)

lemma fetch_appt_world_ok [simp]:
  "fetch_appt world_ok aid tok = Inr [(''id'', JNum aid), (''active'', JBool True)]"
  by (simp add: fetch_appt_def world_ok_def raise_for_status_def setdefault_def)

lemma count_nonempty:
  "length (filter (\<lambda>b. b \<noteq> []) bs) = length (filter (\<lambda>n. n \<noteq> 0) (map length bs))"
  by (induction bs) auto

text \<open>With a job file, a run begins with what creating the dump did.\<close>

lemma main_with_begins:
  assumes "job_file d = Some job_df"
  shows "\<exists>rest. trace (main_with B w d) = snd (bootstrap d) @ rest"
    and "dump_file (store (main_with B w d)) \<noteq> None"
proof -
  have "(\<exists>rest. trace (main_with B w d) = snd (bootstrap d) @ rest) \<and>
      dump_file (store (main_with B w d)) \<noteq> None"
  proof (cases "todo_ids job_df (fst (bootstrap d))")
    case (Inl out)
    from main_with_stops [OF assms Inl, of B w] show ?thesis by simp
  next
    case (Inr todo)
    show ?thesis
    proof (cases "todo = []")
      case True
      with main_with_up_to_date [OF assms, of B w] Inr show ?thesis by simp
    next
      case False
      show ?thesis
      proof (cases "st_token w 0")
        case (Inl e)
        with assms Inr False show ?thesis by (simp add: main_with_def split_beta)
      next
        case tok: (Inr tok)
        obtain ev x s where l: "for_loop B w todo (start tok (fst (bootstrap d))) = (ev, x, s)"
          by (cases "for_loop B w todo (start tok (fst (bootstrap d)))") auto
        with assms Inr False tok show ?thesis
          by (cases x) (simp_all add: main_with_def split_beta)
      qed
    qed
  qed
  then show "\<exists>rest. trace (main_with B w d) = snd (bootstrap d) @ rest"
    and "dump_file (store (main_with B w d)) \<noteq> None" by blast+
qed

text \<open>A run with a job file and a todo list, however it ends.\<close>

lemma main_with_any:
  assumes j: "job_file d = Some job_df" and t: "todo_ids job_df (fst (bootstrap d)) = Inr todo"
  shows "map fst (gets (trace (main_with B w d))) =
      take (length (gets (trace (main_with B w d)))) todo"
    and "concat (appends (trace (main_with B w d))) =
      take (length (concat (appends (trace (main_with B w d)))))
        (fetched w (gets (trace (main_with B w d))))"
    and "ended (main_with B w d) = Returned \<Longrightarrow>
      map fst (gets (trace (main_with B w d))) = todo \<and>
      concat (appends (trace (main_with B w d))) = fetched w (gets (trace (main_with B w d)))"
proof -
  have "map fst (gets (trace (main_with B w d))) =
      take (length (gets (trace (main_with B w d)))) todo \<and>
    concat (appends (trace (main_with B w d))) =
      take (length (concat (appends (trace (main_with B w d)))))
        (fetched w (gets (trace (main_with B w d)))) \<and>
    (ended (main_with B w d) = Returned \<longrightarrow>
      map fst (gets (trace (main_with B w d))) = todo \<and>
      concat (appends (trace (main_with B w d))) = fetched w (gets (trace (main_with B w d))))"
  proof (cases "todo = []")
    case True
    with main_with_up_to_date [OF j, of B w] t show ?thesis by simp
  next
    case False
    show ?thesis
    proof (cases "st_token w 0")
      case (Inl e)
      with j t False show ?thesis by (simp add: main_with_def split_beta)
    next
      case tok: (Inr tok)
      obtain ev x s where l: "for_loop B w todo (start tok (fst (bootstrap d))) = (ev, x, s)"
        by (cases "for_loop B w todo (start tok (fst (bootstrap d)))") auto
      from for_loop_any [OF l]
      have g: "map fst (gets ev) = take (length (gets ev)) todo"
        and c: "fetched w (gets ev) = concat (appends ev) @ batch s"
        by (simp_all add: start_def)
      show ?thesis
      proof (cases x)
        case (Some e)
        with j t False tok l have
          "ended (main_with B w d) = Uncaught e"
          "gets (trace (main_with B w d)) = gets ev"
          "appends (trace (main_with B w d)) = appends ev"
          by (simp_all add: main_with_def split_beta)
        with g c show ?thesis by simp
      next
        case None
        with l have l': "for_loop B w todo (start tok (fst (bootstrap d))) = (ev, None, s)"
          by simp
        from for_loop_facts [OF l'] have g': "map fst (gets ev) = todo" by simp
        from main_with_fetches [OF j t False tok l'] have
          "gets (trace (main_with B w d)) = gets ev"
          "appends (trace (main_with B w d)) = appends ev @ [batch s]"
          by simp_all
        moreover from g' have "length (gets ev) = length todo" by (metis length_map)
        ultimately show ?thesis using g' c by simp
      qed
    qed
  qed
  then show "map fst (gets (trace (main_with B w d))) =
      take (length (gets (trace (main_with B w d)))) todo"
    and "concat (appends (trace (main_with B w d))) =
      take (length (concat (appends (trace (main_with B w d)))))
        (fetched w (gets (trace (main_with B w d))))"
    and "ended (main_with B w d) = Returned \<Longrightarrow>
      map fst (gets (trace (main_with B w d))) = todo \<and>
      concat (appends (trace (main_with B w d))) = fetched w (gets (trace (main_with B w d)))"
    by blast+
qed

text \<open>
  On plain tables a run fetches nothing twice: an identifier of the \<^verbatim>\<open>id\<close> column of
  the dump is not in the todo list, and when that column holds every identifier of the
  reference columns the run appends nothing.
\<close>

lemma plain_tables_up_to_date:
  assumes "todo_ids job_df dump_df = Inr todo" and "df_getitem dump_df ''id'' = Inr col"
    and "plain_ids job_df (id_cols job_df)" and "plain_ids dump_df [''id'']"
  shows "JNum i \<in> set col \<Longrightarrow> i \<notin> set todo"
    and "\<forall>c \<in> set (id_cols job_df). \<forall>v \<in> set (column job_df c). v \<noteq> JNull \<longrightarrow> v \<in> set col \<Longrightarrow>
      todo = []"
    and "\<forall>c \<in> set (id_cols job_df). \<forall>v \<in> set (column job_df c). v \<noteq> JNull \<longrightarrow> v \<in> set col \<Longrightarrow>
      job_file d = Some job_df \<Longrightarrow> dump_file d = Some dump_df \<Longrightarrow>
      main_with B w d = \<lparr>ended = Returned, store = d, trace = [Print Up_to_date]\<rparr>"
proof -
  from assms(1) obtain dn ids where d: "done_ids dump_df = Inr dn"
    and s: "astype_int (dropna (stacked job_df (id_cols job_df))) = Inr ids"
    and f: "todo = filter (\<lambda>i. i \<notin> dn) (unique ids)"
    by (rule todo_ids_Inr)
  show "i \<notin> set todo" if "JNum i \<in> set col"
  proof -
    from d assms(2) that have "i \<in> dn" by (rule done_ids_holds)
    with f show ?thesis by simp
  qed
  show e: "todo = []"
    if r: "\<forall>c \<in> set (id_cols job_df). \<forall>v \<in> set (column job_df c). v \<noteq> JNull \<longrightarrow> v \<in> set col"
  proof -
    have "j \<in> dn" if "j \<in> set ids" for j
    proof -
      from s have "dropna (stacked job_df (id_cols job_df)) = map JNum ids"
        by (rule astype_int_Inr)
      with that have "JNum j \<in> set (dropna (stacked job_df (id_cols job_df)))" by simp
      then obtain c where "c \<in> set (id_cols job_df)" "JNum j \<in> set (column job_df c)"
        by (auto simp: dropna_def stacked_def)
      with r have "JNum j \<in> set col" by auto
      with d assms(2) show ?thesis by (rule done_ids_holds)
    qed
    with f show "todo = []" by (simp add: filter_empty_conv)
  qed
  show "main_with B w d = \<lparr>ended = Returned, store = d, trace = [Print Up_to_date]\<rparr>"
    if r: "\<forall>c \<in> set (id_cols job_df). \<forall>v \<in> set (column job_df c). v \<noteq> JNull \<longrightarrow> v \<in> set col"
      and j: "job_file d = Some job_df" and u: "dump_file d = Some dump_df"
  proof -
    from u have bs: "bootstrap d = (dump_df, [])" by (simp add: bootstrap_def)
    with assms(1) e [OF r] have "todo_ids job_df (fst (bootstrap d)) = Inr []" by simp
    from main_with_up_to_date [OF j this, of B w] bs u show ?thesis by simp
  qed
qed

section \<open>The claims\<close>

text \<open>
  C6. When the computed TodoSet is empty, the run prints that the dump is up to date and
  returns (exit status 0); its trace holds the creation of the dump file, if it was
  missing, and that line only: no token request, no GET, no append.
\<close>

theorem up_to_date_without_api_calls:
  assumes "job_file d = Some job_df" and "todo_ids job_df (fst (bootstrap d)) = Inr []"
  shows "main_with B w d =
      \<lparr>ended = Returned, store = d\<lparr>dump_file := Some (fst (bootstrap d))\<rparr>,
       trace = snd (bootstrap d) @ [Print Up_to_date]\<rparr> \<and>
    exit_code (ended (main_with B w d)) = 0 \<and>
    token_requests (trace (main_with B w d)) = 0 \<and>
    gets (trace (main_with B w d)) = [] \<and>
    appends (trace (main_with B w d)) = []"
  using main_with_up_to_date [OF assms, of B w] by (simp add: exit_code_def)

theorem up_to_date_without_api_calls_witness:
  "job_file \<lparr>job_file = Some job_example, dump_file = Some dump_example\<rparr> = Some job_example \<and>
   todo_ids job_example
     (fst (bootstrap \<lparr>job_file = Some job_example, dump_file = Some dump_example\<rparr>)) = Inr [] \<and>
   main_with BATCH_SIZE world_down \<lparr>job_file = Some job_example, dump_file = Some dump_example\<rparr> =
     \<lparr>ended = Returned, store = \<lparr>job_file = Some job_example, dump_file = Some dump_example\<rparr>,
      trace = [Print Up_to_date]\<rparr>"
proof -
  let ?d = "\<lparr>job_file = Some job_example, dump_file = Some dump_example\<rparr>"
  have j: "job_file ?d = Some job_example" by simp
  have t: "todo_ids job_example (fst (bootstrap ?d)) = Inr []"
    by (simp add: eval_table job_example_def dump_example_def)
  from up_to_date_without_api_calls [OF j t, of BATCH_SIZE world_down] j t
  show ?thesis by (simp add: bootstrap_def)
qed

text \<open>
  C4, as the code has it. A 404 gives the record of the requested identifier with the status
  \<^verbatim>\<open>NOT_FOUND\<close>. Every other 4xx or 5xx status raises HTTPError: these are the statuses
  \<^verbatim>\<open>raise_for_status\<close> raises for. A response with any other status is read as a success:
  a body that is a JSON object is returned, with the requested identifier added under
  \<^verbatim>\<open>id\<close> only when it has no such key; a body that is not JSON, or not an object,
  raises. A request that does not come back raises.
\<close>

theorem fetch_appt_by_status:
  "(get_appointment w aid tok = Failed \<longrightarrow> fetch_appt w aid tok = Inl RequestException) \<and>
   (get_appointment w aid tok = Reply code body \<longrightarrow>
     (code = 404 \<longrightarrow>
        fetch_appt w aid tok = Inr [(''id'', JNum aid), (''status'', JStr ''NOT_FOUND'')]) \<and>
     (code \<noteq> 404 \<and> 400 \<le> code \<and> code < 600 \<longrightarrow> fetch_appt w aid tok = Inl (HTTPError code)) \<and>
     (\<not> (400 \<le> code \<and> code < 600) \<longrightarrow>
        (body = None \<longrightarrow> fetch_appt w aid tok = Inl JSONDecodeError) \<and>
        (\<forall>data. body = Some (JObj data) \<longrightarrow>
           fetch_appt w aid tok =
             Inr (if ''id'' \<in> fst ` set data then data else data @ [(''id'', JNum aid)])) \<and>
        (\<forall>v. body = Some v \<and> (\<forall>data. v \<noteq> JObj data) \<longrightarrow>
           fetch_appt w aid tok = Inl AttributeError)))"
proof -
  have other: "fetch_appt w aid tok = Inl AttributeError"
    if "get_appointment w aid tok = Reply code (Some v)" "\<not> (400 \<le> code \<and> code < 600)"
       "\<forall>data. v \<noteq> JObj data" for v
    using that by (cases v) (auto simp: fetch_appt_def raise_for_status_def)
  show ?thesis
    using other
    by (auto simp: fetch_appt_def raise_for_status_def not_found_def setdefault_def)
qed

theorem fetch_appt_by_status_witness:
  "fetch_appt (world_replying 404 None) 7 (JStr ''t'') =
     Inr [(''id'', JNum 7), (''status'', JStr ''NOT_FOUND'')] \<and>
   fetch_appt (world_replying 503 None) 7 (JStr ''t'') = Inl (HTTPError 503) \<and>
   fetch_appt (world_replying 200 (Some (JObj [(''start'', JStr ''09:00'')]))) 7 (JStr ''t'') =
     Inr [(''start'', JStr ''09:00''), (''id'', JNum 7)] \<and>
   fetch_appt (world_replying 200 (Some (JObj [(''id'', JNum 8)]))) 7 (JStr ''t'') =
     Inr [(''id'', JNum 8)] \<and>
   fetch_appt (world_replying 200 None) 7 (JStr ''t'') = Inl JSONDecodeError \<and>
   fetch_appt (world_replying 200 (Some (JArr []))) 7 (JStr ''t'') = Inl AttributeError \<and>
   fetch_appt world_down 7 (JStr ''t'') = Inl RequestException"
  using fetch_appt_by_status [of "world_replying 404 None" 7 "JStr ''t''" 404 None]
    fetch_appt_by_status [of "world_replying 503 None" 7 "JStr ''t''" 503 None]
    fetch_appt_by_status [of "world_replying 200 (Some (JObj [(''start'', JStr ''09:00'')]))" 7
      "JStr ''t''" 200 "Some (JObj [(''start'', JStr ''09:00'')])"]
    fetch_appt_by_status [of "world_replying 200 (Some (JObj [(''id'', JNum 8)]))" 7
      "JStr ''t''" 200 "Some (JObj [(''id'', JNum 8)])"]
    fetch_appt_by_status [of "world_replying 200 None" 7 "JStr ''t''" 200 None]
    fetch_appt_by_status [of "world_replying 200 (Some (JArr []))" 7 "JStr ''t''" 200 "Some (JArr [])"]
    fetch_appt_by_status [of world_down 7 "JStr ''t''" 0 None]
  by (simp add: world_replying_def world_down_def)

text \<open>
  C4 as stated fails: a response with status 300 is not in the 2xx range, and the code
  returns its payload instead of raising.
\<close>

theorem fetch_appt_non_2xx_counterexample:
  "\<not> (\<forall>w aid tok code body.
        get_appointment w aid tok = Reply code body \<and> code \<noteq> 404 \<and> \<not> (200 \<le> code \<and> code < 300)
        \<longrightarrow> (\<exists>e. fetch_appt w aid tok = Inl e))"
proof
  assume a: "\<forall>w aid tok code body.
        get_appointment w aid tok = Reply code body \<and> code \<noteq> 404 \<and> \<not> (200 \<le> code \<and> code < 300)
        \<longrightarrow> (\<exists>e. fetch_appt w aid tok = Inl e)"
  have "fetch_appt (world_replying 300 (Some (JObj [(''start'', JStr ''09:00'')]))) 7 JNull =
      Inr [(''start'', JStr ''09:00''), (''id'', JNum 7)]"
    by (simp add: fetch_appt_def world_replying_def raise_for_status_def setdefault_def)
  moreover from a [rule_format, of "world_replying 300 (Some (JObj [(''start'', JStr ''09:00'')]))"
      7 JNull 300 "Some (JObj [(''start'', JStr ''09:00'')])"]
  have "\<exists>e. fetch_appt (world_replying 300 (Some (JObj [(''start'', JStr ''09:00'')]))) 7 JNull = Inl e"
    by (simp add: world_replying_def)
  ultimately show False by simp
qed

text \<open>
  C10. In a run that returns, the batches appended, one after the other, are exactly the
  records of the GETs that succeeded, in the order they were fetched: each record is
  appended once. When there was something to fetch, the appends are the records cut into
  runs of the batch size (the buffer starts empty after each flush), the last append holds
  the records fetched since the last full batch, the count printed at the end is the number
  of rows appended over all appends, and the dump ends as its rows at the start followed
  by those rows.
\<close>

theorem every_fetched_record_appended_once:
  assumes "job_file d = Some job_df" and "todo_ids job_df (fst (bootstrap d)) = Inr todo"
    and "0 < B" and "ended (main_with B w d) = Returned"
  shows "concat (appends (trace (main_with B w d))) = fetched w (gets (trace (main_with B w d))) \<and>
    (todo \<noteq> [] \<longrightarrow>
       appends (trace (main_with B w d)) = batches B (fetched w (gets (trace (main_with B w d)))) \<and>
       last (appends (trace (main_with B w d))) =
         drop (length (fetched w (gets (trace (main_with B w d)))) div B * B)
           (fetched w (gets (trace (main_with B w d)))) \<and>
       last (trace (main_with B w d)) =
         Print (Finished (length (concat (appends (trace (main_with B w d)))))) \<and>
       (\<exists>t. dump_file (store (main_with B w d)) = Some t \<and>
          rows t = rows (fst (bootstrap d)) @ concat (appends (trace (main_with B w d)))))"
proof (cases "todo = []")
  case True
  with main_with_up_to_date [OF assms(1), of B w] assms(2) show ?thesis by simp
next
  case False
  note S = main_with_summary [OF assms(1,2) False assms(3,4)]
  have c: "concat (appends (trace (main_with B w d))) = fetched w (gets (trace (main_with B w d)))"
    by (simp only: S(3) concat_batches)
  have l: "last (appends (trace (main_with B w d))) =
      drop (length (fetched w (gets (trace (main_with B w d)))) div B * B)
        (fetched w (gets (trace (main_with B w d))))"
    by (simp only: S(3) last_batches [OF assms(3)])
  from S(3,4,6) c l show ?thesis by simp
qed

theorem every_fetched_record_appended_once_witness:
  "job_file \<lparr>job_file = Some job_example, dump_file = None\<rparr> = Some job_example \<and>
   todo_ids job_example (fst (bootstrap \<lparr>job_file = Some job_example, dump_file = None\<rparr>)) =
     Inr [1, 2, 3] \<and>
   ended (main_with 2 world_ok \<lparr>job_file = Some job_example, dump_file = None\<rparr>) = Returned \<and>
   appends (trace (main_with 2 world_ok \<lparr>job_file = Some job_example, dump_file = None\<rparr>)) =
     [[[(''id'', JNum 1), (''active'', JBool True)], [(''id'', JNum 2), (''active'', JBool True)]],
      [[(''id'', JNum 3), (''active'', JBool True)]]] \<and>
   fetched world_ok (gets (trace (main_with 2 world_ok \<lparr>job_file = Some job_example, dump_file = None\<rparr>))) =
     [[(''id'', JNum 1), (''active'', JBool True)], [(''id'', JNum 2), (''active'', JBool True)],
      [(''id'', JNum 3), (''active'', JBool True)]] \<and>
   last (trace (main_with 2 world_ok \<lparr>job_file = Some job_example, dump_file = None\<rparr>)) =
     Print (Finished 3)"
proof -
  let ?d = "\<lparr>job_file = Some job_example, dump_file = None\<rparr>"
  have j: "job_file ?d = Some job_example" by simp
  have t: "todo_ids job_example (fst (bootstrap ?d)) = Inr [1, 2, 3]"
    by (simp add: eval_table job_example_def)
  have r: "ended (main_with 2 world_ok ?d) = Returned"
    using main_with_completes [OF j t, of 2 world_ok] by simp
  have a: "appends (trace (main_with 2 world_ok ?d)) =
     [[[(''id'', JNum 1), (''active'', JBool True)], [(''id'', JNum 2), (''active'', JBool True)]],
      [[(''id'', JNum 3), (''active'', JBool True)]]]"
    using j t by (simp add: main_with_def split_beta start_def loop_body_def)
  have c: "concat (appends (trace (main_with 2 world_ok ?d))) =
      fetched world_ok (gets (trace (main_with 2 world_ok ?d)))"
    and l: "last (trace (main_with 2 world_ok ?d)) =
      Print (Finished (length (concat (appends (trace (main_with 2 world_ok ?d))))))"
  proof -
    have B: "0 < (2::nat)" by simp
    have n: "[1, 2, 3 :: int] \<noteq> []" by simp
    note T = every_fetched_record_appended_once [OF j t B r]
    from T show "concat (appends (trace (main_with 2 world_ok ?d))) =
      fetched world_ok (gets (trace (main_with 2 world_ok ?d)))" by (rule conjunct1)
    from T [THEN conjunct2, rule_format, OF n]
    show "last (trace (main_with 2 world_ok ?d)) =
      Print (Finished (length (concat (appends (trace (main_with 2 world_ok ?d))))))" by blast
  qed
  from c have f: "fetched world_ok (gets (trace (main_with 2 world_ok ?d))) =
     [[(''id'', JNum 1), (''active'', JBool True)], [(''id'', JNum 2), (''active'', JBool True)],
      [(''id'', JNum 3), (''active'', JBool True)]]"
    by (simp add: a)
  from l have "last (trace (main_with 2 world_ok ?d)) = Print (Finished 3)"
    by (simp add: a)
  with j t r a f show ?thesis by blast
qed



text \<open>
  C7. Take the loop at any point: after any list of identifiers, from the state it starts
  in. The counter is the number of GETs that succeeded so far, not the number of attempts.
  The flushes made so far are as many as the multiples of the batch size the counter has
  reached, each of exactly that many records, the buffer holds the records fetched since
  the last one, and each flush was followed by one token request, whose token is the one in
  use. The next iteration appends exactly when its GET succeeds and brings the counter to a
  multiple of the batch size; it then appends the buffer with the new record, empties the
  buffer and asks for a token: with the token it goes on, and when the request raises the
  loop is left. In the witness the batch size is 2 and the second of three identifiers
  fails: the only flush comes after three attempts.
\<close>

theorem flush_at_multiples_of_batch_size:
  assumes "for_loop B w ids (start tok dump_df) = (ev, None, s)" and "0 < B"
  shows "length (gets ev) = length ids \<and>
    count s = length (fetched w (gets ev)) \<and>
    appends ev @ [batch s] = batches B (fetched w (gets ev)) \<and>
    length (appends ev) = count s div B \<and>
    (\<forall>b \<in> set (appends ev). length b = B) \<and>
    length (batch s) = count s mod B \<and>
    token_requests ev = length (appends ev) \<and>
    posts s = 1 + length (appends ev) \<and>
    (if appends ev = [] then token s = tok else st_token w (length (appends ev)) = Inr (token s)) \<and>
    (\<forall>aid. appends (fst (loop_body B w aid s)) \<noteq> [] \<longleftrightarrow>
       (\<exists>r. fetch_appt w aid (token s) = Inr r) \<and> (count s + 1) mod B = 0) \<and>
    (\<forall>aid r. fetch_appt w aid (token s) = Inr r \<and> (count s + 1) mod B = 0 \<longrightarrow>
       (case st_token w (posts s) of
          Inr t \<Rightarrow>
            loop_body B w aid s =
              ([Get aid (token s), Append (batch s @ [r]), Post_token,
                Print (Downloaded (count s + 1))], None,
               s\<lparr>token := t, batch := [], count := count s + 1,
                 dump := append_drive_csv (dump s) (DataFrame (batch s @ [r])),
                 posts := posts s + 1\<rparr>)
        | Inl e \<Rightarrow>
            loop_body B w aid s =
              ([Get aid (token s), Append (batch s @ [r]), Post_token], Some e,
               s\<lparr>batch := [], count := count s + 1,
                 dump := append_drive_csv (dump s) (DataFrame (batch s @ [r])),
                 posts := posts s + 1\<rparr>)))"
proof -
  note F = for_loop_facts [OF assms(1)]
  have i: "length (batch (start tok dump_df)) = count (start tok dump_df) mod B"
    by (simp add: start_def)
  from for_loop_batches [OF assms(1,2) i]
  have bt: "appends ev @ [batch s] = batches B (fetched w (gets ev))"
    and lb: "length (batch s) = count s mod B"
    by (simp_all add: start_def)
  have g: "length (gets ev) = length ids"
    using F by (metis length_map)
  have c: "count s = length (fetched w (gets ev))"
    using F by (simp add: start_def)
  have "map length (appends ev @ [batch s]) = replicate (count s div B) B @ [count s mod B]"
    using length_batches [OF assms(2), of "fetched w (gets ev)"] by (simp only: bt c)
  then have ml: "map length (appends ev) = replicate (count s div B) B"
    by simp
  have la: "length (appends ev) = count s div B"
    using arg_cong [OF ml, of length] by simp
  have al: "\<forall>b \<in> set (appends ev). length b = B"
  proof
    fix b assume "b \<in> set (appends ev)"
    then have "length b \<in> set (map length (appends ev))" by simp
    then show "length b = B" unfolding ml by simp
  qed
  have p: "posts s = 1 + length (appends ev)" and tr: "token_requests ev = length (appends ev)"
    using F by (simp_all add: start_def)
  have tk: "if appends ev = [] then token s = tok else st_token w (length (appends ev)) = Inr (token s)"
    using for_loop_token [OF assms(1)] p by (cases "appends ev = []") (simp_all add: start_def)
  have st: "\<forall>aid r. fetch_appt w aid (token s) = Inr r \<and> (count s + 1) mod B = 0 \<longrightarrow>
       (case st_token w (posts s) of
          Inr t \<Rightarrow>
            loop_body B w aid s =
              ([Get aid (token s), Append (batch s @ [r]), Post_token,
                Print (Downloaded (count s + 1))], None,
               s\<lparr>token := t, batch := [], count := count s + 1,
                 dump := append_drive_csv (dump s) (DataFrame (batch s @ [r])),
                 posts := posts s + 1\<rparr>)
        | Inl e \<Rightarrow>
            loop_body B w aid s =
              ([Get aid (token s), Append (batch s @ [r]), Post_token], Some e,
               s\<lparr>batch := [], count := count s + 1,
                 dump := append_drive_csv (dump s) (DataFrame (batch s @ [r])),
                 posts := posts s + 1\<rparr>))"
    using assms(2) by (simp add: loop_body_def split: sum.splits)
  have ap: "\<forall>aid. appends (fst (loop_body B w aid s)) \<noteq> [] \<longleftrightarrow>
       (\<exists>r. fetch_appt w aid (token s) = Inr r) \<and> (count s + 1) mod B = 0"
    by (intro allI) (rule loop_body_appends [OF assms(2)])
  from g c bt la al lb tr p tk ap st show ?thesis
    by blast
qed

theorem flush_at_multiples_of_batch_size_witness:
  "for_loop 2 (world_failing [2]) [1, 2, 3] (start (JNum 0) header_only) =
     ([Get 1 (JNum 0), Get 2 (JNum 0), Warning 2 (HTTPError 500), Get 3 (JNum 0),
       Append [[(''id'', JNum 1), (''active'', JBool True)], [(''id'', JNum 3), (''active'', JBool True)]],
       Post_token, Print (Downloaded 2)], None,
      \<lparr>token = JNum 1, batch = [], count = 2,
       dump = \<lparr>columns = [''id'', ''active''],
         rows = [[(''id'', JNum 1), (''active'', JBool True)], [(''id'', JNum 3), (''active'', JBool True)]]\<rparr>,
       posts = 2\<rparr>) \<and>
   length (fetched (world_failing [2])
     [(1, JNum 0), (2, JNum 0), (3, JNum 0)]) = 2 \<and>
   st_token (world_failing [2]) 1 = Inr (JNum 1) \<and>
   appends (fst (loop_body 2 (world_failing [2]) 4
     \<lparr>token = JNum 1, batch = [], count = 2,
       dump = \<lparr>columns = [''id'', ''active''],
         rows = [[(''id'', JNum 1), (''active'', JBool True)], [(''id'', JNum 3), (''active'', JBool True)]]\<rparr>,
       posts = 2\<rparr>)) = []"
proof -
  let ?w = "world_failing [2]"
  let ?ev = "[Get 1 (JNum 0), Get 2 (JNum 0), Warning 2 (HTTPError 500), Get 3 (JNum 0),
       Append [[(''id'', JNum 1), (''active'', JBool True)], [(''id'', JNum 3), (''active'', JBool True)]],
       Post_token, Print (Downloaded 2)]"
  let ?s = "\<lparr>token = JNum 1, batch = [], count = 2,
       dump = \<lparr>columns = [''id'', ''active''],
         rows = [[(''id'', JNum 1), (''active'', JBool True)], [(''id'', JNum 3), (''active'', JBool True)]]\<rparr>,
       posts = 2\<rparr>"
  have f: "fetch_appt ?w 1 tok = Inr [(''id'', JNum 1), (''active'', JBool True)]"
    "fetch_appt ?w 2 tok = Inl (HTTPError 500)"
    "fetch_appt ?w 3 tok = Inr [(''id'', JNum 3), (''active'', JBool True)]"
    "fetch_appt ?w 4 tok = Inr [(''id'', JNum 4), (''active'', JBool True)]" for tok
    by (simp_all add: fetch_appt_def world_failing_def raise_for_status_def setdefault_def)
  have l: "for_loop 2 ?w [1, 2, 3] (start (JNum 0) header_only) = (?ev, None, ?s)"
    by (simp add: start_def loop_body_def f append_drive_csv_def pd_concat_def DataFrame_def
        unique_def header_only_def)
  have B: "0 < (2::nat)" by simp
  note T = flush_at_multiples_of_batch_size [OF l B]
  have c: "count ?s = length (fetched ?w (gets ?ev))"
    by (rule T [THEN conjunct2, THEN conjunct1])
  then have n: "length (fetched ?w [(1, JNum 0), (2, JNum 0), (3, JNum 0)]) = 2" by simp
  have "if appends ?ev = [] then token ?s = JNum 0
    else st_token ?w (length (appends ?ev)) = Inr (token ?s)"
    by (rule T [THEN conjunct2, THEN conjunct2, THEN conjunct2, THEN conjunct2, THEN conjunct2, THEN conjunct2, THEN conjunct2, THEN conjunct2, THEN conjunct1])
  then have k: "st_token ?w 1 = Inr (JNum 1)" by simp
  have "\<forall>aid. appends (fst (loop_body 2 ?w aid ?s)) \<noteq> [] \<longleftrightarrow>
       (\<exists>r. fetch_appt ?w aid (token ?s) = Inr r) \<and> (count ?s + 1) mod 2 = 0"
    by (rule T [THEN conjunct2, THEN conjunct2, THEN conjunct2, THEN conjunct2, THEN conjunct2, THEN conjunct2, THEN conjunct2, THEN conjunct2, THEN conjunct2, THEN conjunct1])
  then have "appends (fst (loop_body 2 ?w 4 ?s)) \<noteq> [] \<longleftrightarrow>
       (\<exists>r. fetch_appt ?w 4 (token ?s) = Inr r) \<and> (count ?s + 1) mod 2 = 0" by (rule spec)
  then have a: "appends (fst (loop_body 2 ?w 4 ?s)) = []" by simp
  from l n k a show ?thesis by (intro conjI) assumption+
qed

text \<open>
  C8. When there is a job file and no dump file, the first thing a run does is to create the
  dump file with the header \<^verbatim>\<open>id\<close> and no row, before anything else, and the Drive holds
  a dump file when the run ends. In the scenario of the specification the job table has
  the first appointments 1 and 2 and the last appointments 2 and 3, the batch size is 2, the
  two token requests and the three fetches succeed: the TodoSet is 1, 2, 3, the records of
  1 and 2 are appended as one batch, a new token is requested, and the record of 3 is
  appended at the end.
\<close>

theorem bootstrap_scenario:
  "(job_file d = Some job_df \<and> dump_file d = None \<longrightarrow>
      (\<exists>rest. trace (main_with B w d) =
         Create_file \<lparr>columns = [''id''], rows = []\<rparr> # Print Created_dump # rest) \<and>
      dump_file (store (main_with B w d)) \<noteq> None) \<and>
   (st_token w 0 = Inr t0 \<and> st_token w 1 = Inr t1 \<and> fetch_appt w 1 t0 = Inr r1 \<and>
    fetch_appt w 2 t0 = Inr r2 \<and> fetch_appt w 3 t1 = Inr r3 \<longrightarrow>
      column job_example ''FirstAppointmentID'' = [JNum 1, JNum 2] \<and>
      column job_example ''LastAppointmentID'' = [JNum 2, JNum 3] \<and>
      todo_ids job_example header_only = Inr [1, 2, 3] \<and>
      ended (main_with 2 w \<lparr>job_file = Some job_example, dump_file = None\<rparr>) = Returned \<and>
      trace (main_with 2 w \<lparr>job_file = Some job_example, dump_file = None\<rparr>) =
        [Create_file \<lparr>columns = [''id''], rows = []\<rparr>, Print Created_dump, Print (To_fetch 3),
         Post_token, Get 1 t0, Get 2 t0, Append [r1, r2], Post_token, Print (Downloaded 2),
         Get 3 t1, Append [r3], Print (Finished 3)] \<and>
      map_option rows (dump_file (store (main_with 2 w \<lparr>job_file = Some job_example, dump_file = None\<rparr>))) =
        Some [r1, r2, r3])"
proof -
  have a: "(\<exists>rest. trace (main_with B w d) =
         Create_file \<lparr>columns = [''id''], rows = []\<rparr> # Print Created_dump # rest) \<and>
      dump_file (store (main_with B w d)) \<noteq> None"
    if "job_file d = Some job_df" "dump_file d = None"
    using main_with_begins [OF that(1), of B w] that(2)
    by (simp add: bootstrap_def header_only_def)
  have c: "column job_example ''FirstAppointmentID'' = [JNum 1, JNum 2]"
    "column job_example ''LastAppointmentID'' = [JNum 2, JNum 3]"
    by (simp_all add: column_def cell_def job_example_def)
  have t: "todo_ids job_example header_only = Inr [1, 2, 3]"
    by (simp add: eval_table job_example_def)
  have m: "main_with 2 w \<lparr>job_file = Some job_example, dump_file = None\<rparr> =
      \<lparr>ended = Returned,
       store = \<lparr>job_file = Some job_example,
         dump_file = Some (append_drive_csv
           (append_drive_csv header_only (DataFrame [r1, r2])) (DataFrame [r3]))\<rparr>,
       trace = [Create_file header_only, Print Created_dump, Print (To_fetch 3),
         Post_token, Get 1 t0, Get 2 t0, Append [r1, r2], Post_token, Print (Downloaded 2),
         Get 3 t1, Append [r3], Print (Finished 3)]\<rparr>"
    if "st_token w 0 = Inr t0" "st_token w 1 = Inr t1" "fetch_appt w 1 t0 = Inr r1"
      "fetch_appt w 2 t0 = Inr r2" "fetch_appt w 3 t1 = Inr r3"
    using that t by (simp add: main_with_def split_beta start_def loop_body_def bootstrap_def)
  have r: "rows (append_drive_csv (append_drive_csv header_only (DataFrame [r1, r2]))
      (DataFrame [r3])) = [r1, r2, r3]"
    by (simp add: append_drive_csv_def pd_concat_def DataFrame_def header_only_def)
  from a c t m r show ?thesis by (simp add: header_only_def)
qed

theorem bootstrap_scenario_witness:
  "job_file \<lparr>job_file = Some job_example, dump_file = None\<rparr> = Some job_example \<and>
   dump_file \<lparr>job_file = Some job_example, dump_file = None\<rparr> = None \<and>
   st_token world_ok 0 = Inr (JNum 0) \<and> st_token world_ok 1 = Inr (JNum 1) \<and>
   fetch_appt world_ok 1 (JNum 0) = Inr [(''id'', JNum 1), (''active'', JBool True)] \<and>
   fetch_appt world_ok 2 (JNum 0) = Inr [(''id'', JNum 2), (''active'', JBool True)] \<and>
   fetch_appt world_ok 3 (JNum 1) = Inr [(''id'', JNum 3), (''active'', JBool True)] \<and>
   todo_ids job_example header_only = Inr [1, 2, 3] \<and>
   trace (main_with 2 world_ok \<lparr>job_file = Some job_example, dump_file = None\<rparr>) =
     [Create_file \<lparr>columns = [''id''], rows = []\<rparr>, Print Created_dump, Print (To_fetch 3),
      Post_token, Get 1 (JNum 0), Get 2 (JNum 0),
      Append [[(''id'', JNum 1), (''active'', JBool True)], [(''id'', JNum 2), (''active'', JBool True)]],
      Post_token, Print (Downloaded 2), Get 3 (JNum 1),
      Append [[(''id'', JNum 3), (''active'', JBool True)]], Print (Finished 3)] \<and>
   dump_file (store (main_with 2 world_ok \<lparr>job_file = Some job_example, dump_file = None\<rparr>)) \<noteq> None"
proof -
  let ?d = "\<lparr>job_file = Some job_example, dump_file = None\<rparr>"
  have h1: "job_file ?d = Some job_example \<and> dump_file ?d = None" by simp
  have h2: "st_token world_ok 0 = Inr (JNum 0) \<and> st_token world_ok 1 = Inr (JNum 1) \<and>
    fetch_appt world_ok 1 (JNum 0) = Inr [(''id'', JNum 1), (''active'', JBool True)] \<and>
    fetch_appt world_ok 2 (JNum 0) = Inr [(''id'', JNum 2), (''active'', JBool True)] \<and>
    fetch_appt world_ok 3 (JNum 1) = Inr [(''id'', JNum 3), (''active'', JBool True)]" by simp
  note T = bootstrap_scenario [of ?d job_example 2 world_ok "JNum 0" "JNum 1"
    "[(''id'', JNum 1), (''active'', JBool True)]" "[(''id'', JNum 2), (''active'', JBool True)]"
    "[(''id'', JNum 3), (''active'', JBool True)]"]
  note A = T [THEN conjunct1, rule_format, OF h1]
  note S = T [THEN conjunct2, rule_format, OF h2]
  from A have n: "dump_file (store (main_with 2 world_ok ?d)) \<noteq> None" by (rule conjunct2)
  from S have t: "todo_ids job_example header_only = Inr [1, 2, 3]" by blast
  from S have tr: "trace (main_with 2 world_ok ?d) =
     [Create_file \<lparr>columns = [''id''], rows = []\<rparr>, Print Created_dump, Print (To_fetch 3),
      Post_token, Get 1 (JNum 0), Get 2 (JNum 0),
      Append [[(''id'', JNum 1), (''active'', JBool True)], [(''id'', JNum 2), (''active'', JBool True)]],
      Post_token, Print (Downloaded 2), Get 3 (JNum 1),
      Append [[(''id'', JNum 3), (''active'', JBool True)]], Print (Finished 3)]" by blast
  from h1 h2 t tr n show ?thesis by blast
qed




text \<open>
  C2, as the code has it. Take a run that returns, with N identifiers to fetch (N > 0), a
  batch size B > 0 and no warning logged, that is, no fetch of the run raised. All N records
  were fetched. The run made N div B appends of B rows each, one at each multiple of B, and
  then the final append of the N mod B rows that are left: N div B + 1 appends in all. The
  final append is made in any case, so it has no row when B divides N. The appends that
  carry a row are ceil(N / B) in number. In the witness the API checks the bearer token, so
  that a GET under another token would fail, and no GET of the run does.
\<close>

theorem appends_without_failures:
  assumes "job_file d = Some job_df" and "todo_ids job_df (fst (bootstrap d)) = Inr todo"
    and "todo \<noteq> []" and "0 < B" and "ended (main_with B w d) = Returned"
    and "warnings (trace (main_with B w d)) = []"
  shows "length (fetched w (gets (trace (main_with B w d)))) = length todo \<and>
    map length (appends (trace (main_with B w d))) =
      replicate (length todo div B) B @ [length todo mod B] \<and>
    length (appends (trace (main_with B w d))) = length todo div B + 1 \<and>
    length (filter (\<lambda>b. b \<noteq> []) (appends (trace (main_with B w d)))) = (length todo + B - 1) div B"
proof -
  note S = main_with_summary [OF assms(1,2,3,4,5)]
  have "length (gets (trace (main_with B w d))) = length todo"
    using S(1) by (metis length_map)
  moreover have "failed w (gets (trace (main_with B w d))) = []"
    using S(2) assms(6) by simp
  ultimately have n: "length (fetched w (gets (trace (main_with B w d)))) = length todo"
    using length_fetched_failed [of w "gets (trace (main_with B w d))"] by simp
  have m: "map length (appends (trace (main_with B w d))) =
      replicate (length todo div B) B @ [length todo mod B]"
    using length_batches [OF assms(4), of "fetched w (gets (trace (main_with B w d)))"]
    by (simp only: S(3) n)
  have l: "length (appends (trace (main_with B w d))) = length todo div B + 1"
    using arg_cong [OF m, of length] by simp
  have "length (filter (\<lambda>b. b \<noteq> []) (appends (trace (main_with B w d)))) =
      length todo div B + (if length todo mod B = 0 then 0 else 1)"
    using assms(4) by (simp add: count_nonempty m)
  also have "\<dots> = (length todo + B - 1) div B"
    using ceil_div [OF assms(4), of "length todo"] by simp
  finally show ?thesis using n m l by simp
qed

theorem appends_without_failures_witness:
  "job_file \<lparr>job_file = Some job_example, dump_file = None\<rparr> = Some job_example \<and>
   todo_ids job_example (fst (bootstrap \<lparr>job_file = Some job_example, dump_file = None\<rparr>)) =
     Inr [1, 2, 3] \<and>
   ended (main_with 2 world_auth \<lparr>job_file = Some job_example, dump_file = None\<rparr>) = Returned \<and>
   warnings (trace (main_with 2 world_auth \<lparr>job_file = Some job_example, dump_file = None\<rparr>)) = [] \<and>
   fetch_appt world_auth 1 JNull = Inl (HTTPError 401) \<and>
   map length (appends (trace (main_with 2 world_auth \<lparr>job_file = Some job_example, dump_file = None\<rparr>))) =
     [2, 1] \<and>
   length (filter (\<lambda>b. b \<noteq> [])
     (appends (trace (main_with 2 world_auth \<lparr>job_file = Some job_example, dump_file = None\<rparr>)))) = 2"
proof -
  let ?d = "\<lparr>job_file = Some job_example, dump_file = None\<rparr>"
  have j: "job_file ?d = Some job_example" by simp
  have t: "todo_ids job_example (fst (bootstrap ?d)) = Inr [1, 2, 3]"
    by (simp add: eval_table job_example_def)
  have n: "[1, 2, 3 :: int] \<noteq> []" by simp
  have B: "0 < (2::nat)" by simp
  have k: "st_token world_auth n = Inr (JNum (int n))" for n
    by (simp add: st_token_def world_auth_def raise_for_status_def)
  have f: "fetch_appt world_auth aid (JNum i) = Inr [(''id'', JNum aid), (''active'', JBool True)]"
    for aid i
    by (simp add: fetch_appt_def world_auth_def raise_for_status_def setdefault_def)
  have u: "fetch_appt world_auth 1 JNull = Inl (HTTPError 401)"
    by (simp add: fetch_appt_def world_auth_def raise_for_status_def)
  have m: "ended (main_with 2 world_auth ?d) = Returned \<and>
      warnings (trace (main_with 2 world_auth ?d)) = []"
    using t by (simp add: main_with_def split_beta start_def loop_body_def k f)
  then have r: "ended (main_with 2 world_auth ?d) = Returned"
    and z: "warnings (trace (main_with 2 world_auth ?d)) = []" by simp_all
  note T = appends_without_failures [OF j t n B r z]
  have d: "length [1, 2, 3 :: int] div 2 = 1" "length [1, 2, 3 :: int] mod 2 = 1"
    "(length [1, 2, 3 :: int] + 2 - 1) div 2 = 2" by simp_all
  from T have "map length (appends (trace (main_with 2 world_auth ?d))) = [2, 1] \<and>
    length (filter (\<lambda>b. b \<noteq> []) (appends (trace (main_with 2 world_auth ?d)))) = 2"
    unfolding d by simp
  with j t r z u show ?thesis by blast
qed

text \<open>
  C2 as stated fails when the batch size divides the number of identifiers: with 3
  identifiers and a batch size of 3 nothing raises, and there are two appends, of 3 rows
  and of none, where ceil(3 / 3) is 1.
\<close>

theorem appends_ceiling_counterexample:
  "todo_ids job_example (fst (bootstrap \<lparr>job_file = Some job_example, dump_file = None\<rparr>)) =
     Inr [1, 2, 3] \<and>
   warnings (trace (main_with 3 world_ok \<lparr>job_file = Some job_example, dump_file = None\<rparr>)) = [] \<and>
   map length (appends (trace (main_with 3 world_ok \<lparr>job_file = Some job_example, dump_file = None\<rparr>))) =
     [3, 0] \<and>
   length (appends (trace (main_with 3 world_ok \<lparr>job_file = Some job_example, dump_file = None\<rparr>))) \<noteq>
     (length [1, 2, 3 :: int] + 3 - 1) div 3"
proof -
  let ?d = "\<lparr>job_file = Some job_example, dump_file = None\<rparr>"
  have t: "todo_ids job_example (fst (bootstrap ?d)) = Inr [1, 2, 3]"
    by (simp add: eval_table job_example_def)
  have m: "trace (main_with 3 world_ok ?d) =
    [Create_file header_only, Print Created_dump, Print (To_fetch 3), Post_token,
     Get 1 (JNum 0), Get 2 (JNum 0), Get 3 (JNum 0),
     Append [[(''id'', JNum 1), (''active'', JBool True)], [(''id'', JNum 2), (''active'', JBool True)],
             [(''id'', JNum 3), (''active'', JBool True)]],
     Post_token, Print (Downloaded 3), Append [], Print (Finished 3)]"
    using t by (simp add: main_with_def split_beta start_def loop_body_def bootstrap_def)
  show ?thesis using t by (simp add: m)
qed

text \<open>
  C1, as the code has it, for plain tables. The reference columns are stacked: the whole
  first reference column from top to bottom, then the whole next one. The TodoSet is the
  first-seen order of the identifiers of that sequence, those of the dump left out. However
  a run ends, the GETs it issued are for the first identifiers of the TodoSet, one each, in
  that order, and the rows it appended, batch after batch, are the first of the records of
  the GETs that succeeded, in the same order. In a run that returns they are all of them.
\<close>

theorem appended_rows_follow_stacked_columns:
  assumes "job_file d = Some job_df" and "todo_ids job_df (fst (bootstrap d)) = Inr todo"
    and "plain_ids job_df (id_cols job_df)" and "plain_ids (fst (bootstrap d)) [''id'']"
  shows "(\<exists>ids dn.
       dropna (concat (map (column job_df) (id_cols job_df))) = map JNum ids \<and>
       done_ids (fst (bootstrap d)) = Inr dn \<and>
       todo = filter (\<lambda>i. i \<notin> dn) (first_seen ids)) \<and>
    map fst (gets (trace (main_with B w d))) =
      take (length (gets (trace (main_with B w d)))) todo \<and>
    concat (appends (trace (main_with B w d))) =
      take (length (concat (appends (trace (main_with B w d)))))
        (fetched w (gets (trace (main_with B w d)))) \<and>
    (ended (main_with B w d) = Returned \<longrightarrow>
       map fst (gets (trace (main_with B w d))) = todo \<and>
       concat (appends (trace (main_with B w d))) = fetched w (gets (trace (main_with B w d))))"
proof -
  from assms(2) obtain dn ids where dn: "done_ids (fst (bootstrap d)) = Inr dn"
    and ids: "astype_int (dropna (stacked job_df (id_cols job_df))) = Inr ids"
    and todo: "todo = filter (\<lambda>i. i \<notin> dn) (unique ids)"
    by (rule todo_ids_Inr)
  from ids have "dropna (concat (map (column job_df) (id_cols job_df))) = map JNum ids"
    unfolding stacked_def by (rule astype_int_Inr)
  with dn todo have a: "\<exists>ids dn.
       dropna (concat (map (column job_df) (id_cols job_df))) = map JNum ids \<and>
       done_ids (fst (bootstrap d)) = Inr dn \<and>
       todo = filter (\<lambda>i. i \<notin> dn) (first_seen ids)"
    unfolding unique_first_seen by blast
  note M = main_with_any [OF assms(1,2), of B w]
  from a M(1) M(2) M(3) show ?thesis by blast
qed


theorem appended_rows_follow_stacked_columns_witness:
  "job_file \<lparr>job_file = Some job_crossed, dump_file = None\<rparr> = Some job_crossed \<and>
   todo_ids job_crossed (fst (bootstrap \<lparr>job_file = Some job_crossed, dump_file = None\<rparr>)) =
     Inr [1, 2, 3, 4] \<and>
   plain_ids job_crossed (id_cols job_crossed) \<and>
   plain_ids (fst (bootstrap \<lparr>job_file = Some job_crossed, dump_file = None\<rparr>)) [''id''] \<and>
   ended (main_with BATCH_SIZE world_ok \<lparr>job_file = Some job_crossed, dump_file = None\<rparr>) = Returned \<and>
   dropna (concat (map (column job_crossed) (id_cols job_crossed))) = map JNum [1, 2, 3, 4] \<and>
   first_seen [1, 2, 3, 4 :: int] = [1, 2, 3, 4] \<and>
   map fst (gets (trace (main_with BATCH_SIZE world_ok \<lparr>job_file = Some job_crossed, dump_file = None\<rparr>))) =
     [1, 2, 3, 4]"
proof -
  let ?d = "\<lparr>job_file = Some job_crossed, dump_file = None\<rparr>"
  have j: "job_file ?d = Some job_crossed" by simp
  have t: "todo_ids job_crossed (fst (bootstrap ?d)) = Inr [1, 2, 3, 4]"
    by (simp add: eval_table job_crossed_def)
  have p: "plain_ids job_crossed (id_cols job_crossed)"
    by (simp add: plain_ids_def eval_table job_crossed_def)
  have q: "plain_ids (fst (bootstrap ?d)) [''id'']"
    by (simp add: plain_ids_def eval_table)
  have B: "0 < BATCH_SIZE" by (simp add: BATCH_SIZE_def)
  have r: "ended (main_with BATCH_SIZE world_ok ?d) = Returned"
    using main_with_completes [OF j t B] by simp
  have s: "dropna (concat (map (column job_crossed) (id_cols job_crossed))) = map JNum [1, 2, 3, 4]"
    by (simp add: eval_table job_crossed_def)
  have f: "first_seen [1, 2, 3, 4 :: int] = [1, 2, 3, 4]"
    by (simp add: first_seen_def upt_conv_Cons)
  from appended_rows_follow_stacked_columns [OF j t p q, of BATCH_SIZE world_ok] r
  have "map fst (gets (trace (main_with BATCH_SIZE world_ok ?d))) = [1, 2, 3, 4]" by blast
  with j t p q r s f show ?thesis by blast
qed

text \<open>
  C1 as stated fails: for the rows (1, 3) and (2, 4) the scan row by row meets the
  identifiers in the order 1, 3, 2, 4, and the rows are appended in the order 1, 2, 3, 4.
\<close>

theorem appended_rows_row_by_row_counterexample:
  "id_cols job_crossed = [''FirstAppointmentID'', ''LastAppointmentID''] \<and>
   first_seen (dropna (row_scan job_crossed (id_cols job_crossed))) = map JNum [1, 3, 2, 4] \<and>
   concat (appends (trace (main world_ok \<lparr>job_file = Some job_crossed, dump_file = None\<rparr>))) =
     [[(''id'', JNum 1), (''active'', JBool True)], [(''id'', JNum 2), (''active'', JBool True)],
      [(''id'', JNum 3), (''active'', JBool True)], [(''id'', JNum 4), (''active'', JBool True)]] \<and>
   map (cell ''id'')
     (concat (appends (trace (main world_ok \<lparr>job_file = Some job_crossed, dump_file = None\<rparr>)))) \<noteq>
   first_seen (dropna (row_scan job_crossed (id_cols job_crossed)))"
proof -
  let ?d = "\<lparr>job_file = Some job_crossed, dump_file = None\<rparr>"
  have i: "id_cols job_crossed = [''FirstAppointmentID'', ''LastAppointmentID'']"
    by (simp add: eval_table job_crossed_def)
  have f: "first_seen (dropna (row_scan job_crossed (id_cols job_crossed))) = map JNum [1, 3, 2, 4]"
    by (simp add: first_seen_def row_scan_def eval_table job_crossed_def upt_conv_Cons)
  have t: "todo_ids job_crossed (fst (bootstrap ?d)) = Inr [1, 2, 3, 4]"
    by (simp add: eval_table job_crossed_def)
  have a: "concat (appends (trace (main world_ok ?d))) =
     [[(''id'', JNum 1), (''active'', JBool True)], [(''id'', JNum 2), (''active'', JBool True)],
      [(''id'', JNum 3), (''active'', JBool True)], [(''id'', JNum 4), (''active'', JBool True)]]"
    using t by (simp add: main_def main_with_def BATCH_SIZE_def split_beta start_def loop_body_def)
  have "map (cell ''id'') (concat (appends (trace (main world_ok ?d)))) \<noteq>
      first_seen (dropna (row_scan job_crossed (id_cols job_crossed)))"
    unfolding a f by (simp add: cell_def)
  with i f a show ?thesis by blast
qed

end
